theory Spec2Isabelle
  imports Main
begin

section \<open>JavaScript values\<close>

text \<open>
  Documents handled by the image cleanup are plain data: the result of
  \<^verbatim>\<open>record.toObject()\<close> and the parsed request body. They are modelled as a
  tree of JavaScript values. Numbers are integers here (no NaN, no fractions) and objects
  are association lists read with \<open>map_of\<close> (keys are unique in a document). A document
  has its own properties only: what a document inherits from \<^verbatim>\<open>Object.prototype\<close>
  or \<^verbatim>\<open>Array.prototype\<close> is a function, a prototype object or
  \<^verbatim>\<open>null\<close>, never a string or a non-empty array, so it is never an image reference.
  The two object literals of the code that are read with a key from outside,
  \<^verbatim>\<open>imageConfig\<close> and \<^verbatim>\<open>linkFieldMap\<close>, are read with their inherited
  members (see \<open>literal_get\<close>).
\<close>

datatype json =
    JUndefined
  | JNull
  | JBool bool
  | JNum int
  | JStr string
  | JArr "json list"
  | JObj "(string \<times> json) list"

text \<open>Truthiness, as tested by \<^verbatim>\<open>!x\<close>, \<^verbatim>\<open>x && y\<close> and \<^verbatim>\<open>x || y\<close>.\<close>

fun truthy :: "json \<Rightarrow> bool" where
  "truthy JUndefined = False"
| "truthy JNull = False"
| "truthy (JBool b) = b"
| "truthy (JNum n) = (n \<noteq> 0)"
| "truthy (JStr s) = (s \<noteq> [])"
| "truthy (JArr xs) = True"
| "truthy (JObj kvs) = True"

text \<open>\<^verbatim>\<open>typeof x === 'object'\<close>: true of objects, arrays and \<^verbatim>\<open>null\<close>.\<close>

fun typeof_object :: "json \<Rightarrow> bool" where
  "typeof_object JNull = True"
| "typeof_object (JArr xs) = True"
| "typeof_object (JObj kvs) = True"
| "typeof_object v = False"

text \<open>\<^verbatim>\<open>typeof x === 'string'\<close>.\<close>

fun typeof_string :: "json \<Rightarrow> bool" where
  "typeof_string (JStr s) = True"
| "typeof_string v = False"

text \<open>\<^verbatim>\<open>Array.isArray(x)\<close>.\<close>

fun isArray :: "json \<Rightarrow> bool" where
  "isArray (JArr xs) = True"
| "isArray v = False"

text \<open>
  Strict equality \<^verbatim>\<open>a === b\<close> between a value of the stored document and a value of
  the incoming payload. Primitives compare by value. Objects and arrays compare by
  reference, and the two documents never share a node, so an object or array of one is
  never strictly equal to anything in the other.
\<close>

fun strict_eq :: "json \<Rightarrow> json \<Rightarrow> bool" where
  "strict_eq JUndefined JUndefined = True"
| "strict_eq JNull JNull = True"
| "strict_eq (JBool a) (JBool b) = (a = b)"
| "strict_eq (JNum a) (JNum b) = (a = b)"
| "strict_eq (JStr a) (JStr b) = (a = b)"
| "strict_eq a b = False"

text \<open>The decimal numeral of an array index, as property keys are strings.\<close>

definition digit_char :: "nat \<Rightarrow> char" where
  "digit_char d = ''0123456789'' ! d"

function show_nat :: "nat \<Rightarrow> string" where
  "show_nat n = (if n < 10 then [digit_char n] else show_nat (n div 10) @ [digit_char (n mod 10)])"
  by pat_completeness auto
termination
  by (relation "measure id") auto

declare show_nat.simps [simp del]

text \<open>
  \<^verbatim>\<open>key in acc\<close> for an object or array \<open>acc\<close>: an own key of an object; an index
  below the length, or \<^verbatim>\<open>length\<close>, of an array.
\<close>

fun js_in :: "string \<Rightarrow> json \<Rightarrow> bool" where
  "js_in k (JObj kvs) = (k \<in> set (map fst kvs))"
| "js_in k (JArr xs) = (k = ''length'' \<or> list_ex (\<lambda>i. show_nat i = k) [0..<length xs])"
| "js_in k v = False"

text \<open>\<^verbatim>\<open>acc[key]\<close> with a string key, for an object or array \<open>acc\<close>.\<close>

fun js_get :: "json \<Rightarrow> string \<Rightarrow> json" where
  "js_get (JObj kvs) k = (case map_of kvs k of Some v \<Rightarrow> v | None \<Rightarrow> JUndefined)"
| "js_get (JArr xs) k =
     (if k = ''length'' then JNum (int (length xs))
      else case find (\<lambda>i. show_nat i = k) [0..<length xs] of
             Some i \<Rightarrow> xs ! i
           | None \<Rightarrow> JUndefined)"
| "js_get v k = JUndefined"

text \<open>
  \<^verbatim>\<open>v?.[i]\<close> with a numeric index: \<^verbatim>\<open>undefined\<close> on \<^verbatim>\<open>null\<close> and
  \<^verbatim>\<open>undefined\<close>, the element of an array, the one-character string of a string, the
  property named by the numeral of an object, and \<^verbatim>\<open>undefined\<close> on numbers and
  booleans.
\<close>

fun opt_index :: "json \<Rightarrow> nat \<Rightarrow> json" where
  "opt_index (JArr xs) i = (if i < length xs then xs ! i else JUndefined)"
| "opt_index (JStr s) i = (if i < length s then JStr [s ! i] else JUndefined)"
| "opt_index (JObj kvs) i = (case map_of kvs (show_nat i) of Some v \<Rightarrow> v | None \<Rightarrow> JUndefined)"
| "opt_index v i = JUndefined"

section \<open>String splitting\<close>

text \<open>
  \<^verbatim>\<open>s.split(c)\<close> for a one-character separator: the pieces between the
  separators, in order; never the empty list (\<^verbatim>\<open>"".split(".")\<close> is \<^verbatim>\<open>[""]\<close>).
\<close>

fun split_char :: "char \<Rightarrow> string \<Rightarrow> string list" where
  "split_char sep [] = [[]]"
| "split_char sep (c # cs) =
     (if c = sep then [] # split_char sep cs
      else case split_char sep cs of
             p # ps \<Rightarrow> (c # p) # ps
           | [] \<Rightarrow> [[c]])"

text \<open>\<^verbatim>\<open>path.split('[]')\<close>: the pieces between the occurrences of the two characters.\<close>

fun split_brackets :: "string \<Rightarrow> string list" where
  "split_brackets [] = [[]]"
| "split_brackets [c] = [[c]]"
| "split_brackets (c # d # cs) =
     (if c = CHR ''['' \<and> d = CHR '']'' then [] # split_brackets cs
      else case split_brackets (d # cs) of
             p # ps \<Rightarrow> (c # p) # ps
           | [] \<Rightarrow> [[c]])"

text \<open>\<^verbatim>\<open>path.includes('[]')\<close>.\<close>

fun includes_brackets :: "string \<Rightarrow> bool" where
  "includes_brackets (c # d # cs) =
     ((c = CHR ''['' \<and> d = CHR '']'') \<or> includes_brackets (d # cs))"
| "includes_brackets cs = False"

text \<open>\<^verbatim>\<open>s.endsWith('.')\<close>.\<close>

definition endsWith_dot :: "string \<Rightarrow> bool" where
  "endsWith_dot s = (s \<noteq> [] \<and> last s = CHR ''.'')"

section \<open>Path resolution (middlewares/cleanupOldImages.js, middlewares/cleanupImages.js)\<close>

text \<open>One step of the \<^verbatim>\<open>reduce\<close> in \<^verbatim>\<open>getNestedValue\<close>.\<close>

definition nested_step :: "json \<Rightarrow> string \<Rightarrow> json" where
  "nested_step acc key =
     (if truthy acc \<and> typeof_object acc \<and> js_in key acc then js_get acc key else JUndefined)"

definition getNestedValue :: "json \<Rightarrow> string \<Rightarrow> json" where
  "getNestedValue obj path =
     (if \<not> truthy obj \<or> path = [] then JUndefined
      else foldl nested_step obj (split_char CHR ''.'' path))"

text \<open>
  The two pieces computed at the head of \<^verbatim>\<open>compareArrayPath\<close> and of
  \<^verbatim>\<open>handleArrayPath\<close>: \<^verbatim>\<open>parts[0]\<close> without a trailing dot, and
  \<^verbatim>\<open>parts[1]\<close> without its first character (the empty string when
  \<^verbatim>\<open>parts[1]\<close> is missing or empty).
\<close>

definition arrayPath_of :: "string \<Rightarrow> string" where
  "arrayPath_of path =
     (case split_brackets path of
        p0 # ps \<Rightarrow> (if endsWith_dot p0 then butlast p0 else p0)
      | [] \<Rightarrow> [])"

definition remainingPath_of :: "string \<Rightarrow> string" where
  "remainingPath_of path =
     (case split_brackets path of
        p0 # p1 # ps \<Rightarrow> (if p1 \<noteq> [] then drop 1 p1 else [])
      | _ \<Rightarrow> [])"

section \<open>Differential cleanup (middlewares/cleanupOldImages.js)\<close>

text \<open>
  The comparison functions call \<^verbatim>\<open>deleteImage\<close> on the values they mark and use
  nothing it returns. They are modelled by the list of values they pass to
  \<^verbatim>\<open>deleteImage\<close>, in call order.
\<close>

text \<open>
  The loop over an array of images, in \<^verbatim>\<open>compareSimplePath\<close> and in the
  direct-array branch of \<^verbatim>\<open>compareArrayPath\<close>: \<open>i\<close> is the index of the head of
  the remaining old elements.
\<close>

fun compare_images_loop :: "json list \<Rightarrow> json \<Rightarrow> nat \<Rightarrow> json list" where
  "compare_images_loop [] newArray i = []"
| "compare_images_loop (oldImage # rest) newArray i =
     (let newImage = opt_index newArray i
      in (if truthy oldImage \<and> \<not> strict_eq oldImage newImage then [oldImage] else [])
         @ compare_images_loop rest newArray (Suc i))"

definition compareSimplePath :: "json \<Rightarrow> json \<Rightarrow> string \<Rightarrow> json list" where
  "compareSimplePath oldObj newObj path =
     (let oldValue = getNestedValue oldObj path;
          newValue = getNestedValue newObj path
      in if typeof_string oldValue \<and> \<not> strict_eq oldValue newValue then [oldValue]
         else (case oldValue of
                 JArr xs \<Rightarrow> compare_images_loop xs newValue 0
               | _ \<Rightarrow> []))"

lemma split_brackets_nonempty: "split_brackets s \<noteq> []"
  by (induction s rule: split_brackets.induct) (auto split: list.splits)

lemma split_brackets_sum:
  "sum_list (map length (split_brackets s)) \<le> length s"
proof (induction s rule: split_brackets.induct)
  case 1
  then show ?case by simp
next
  case (2 c)
  then show ?case by simp
next
  case (3 c d cs)
  show ?case
  proof (cases "c = CHR ''['' \<and> d = CHR '']''")
    case True
    with 3 show ?thesis by simp
  next
    case False
    with 3 show ?thesis
      by (cases "split_brackets (d # cs)") (auto simp: split_brackets_nonempty)
  qed
qed

lemma split_brackets_length:
  "p \<in> set (split_brackets s) \<Longrightarrow> length p \<le> length s"
proof -
  assume "p \<in> set (split_brackets s)"
  then have "length p \<le> sum_list (map length (split_brackets s))"
    by (simp add: member_le_sum_list)
  then show ?thesis
    using split_brackets_sum [of s] by linarith
qed

lemma remainingPath_shorter:
  "remainingPath_of path \<noteq> [] \<Longrightarrow> length (remainingPath_of path) < length path"
proof -
  assume ne: "remainingPath_of path \<noteq> []"
  then obtain p0 p1 ps where sp: "split_brackets path = p0 # p1 # ps" and p1: "p1 \<noteq> []"
    by (auto simp: remainingPath_of_def split: list.splits if_splits)
  have le: "length p1 \<le> length path"
    using split_brackets_length [of p1 path] sp by simp
  show ?thesis
    using sp p1 le by (cases p1) (auto simp: remainingPath_of_def)
qed

text \<open>
  \<^verbatim>\<open>compareAndDeleteByPath\<close> and \<^verbatim>\<open>compareArrayPath\<close> call each other; the
  loop over the old items of the nested branch is the third function, with \<open>i\<close> the index
  of the head of the remaining old items.
\<close>

function compareAndDeleteByPath :: "json \<Rightarrow> json \<Rightarrow> string \<Rightarrow> json list"
  and compareArrayPath :: "json \<Rightarrow> json \<Rightarrow> string \<Rightarrow> json list"
  and compare_items_loop :: "json list \<Rightarrow> json \<Rightarrow> string \<Rightarrow> nat \<Rightarrow> json list"
where
  "compareAndDeleteByPath oldObj newObj path =
     (if \<not> truthy oldObj then []
      else if includes_brackets path then compareArrayPath oldObj newObj path
      else compareSimplePath oldObj newObj path)"
| "compareArrayPath oldObj newObj path =
     (let arrayPath = arrayPath_of path;
          remainingPath = remainingPath_of path;
          oldArray = getNestedValue oldObj arrayPath;
          newArray = getNestedValue newObj arrayPath
      in case oldArray of
           JArr xs \<Rightarrow>
             (if remainingPath = [] then compare_images_loop xs newArray 0
              else compare_items_loop xs newArray remainingPath 0)
         | _ \<Rightarrow> [])"
| "compare_items_loop [] newArray remainingPath i = []"
| "compare_items_loop (oldItem # rest) newArray remainingPath i =
     (let newItem = opt_index newArray i
      in (if truthy oldItem \<and> typeof_object oldItem
          then compareAndDeleteByPath oldItem newItem remainingPath else [])
         @ compare_items_loop rest newArray remainingPath (Suc i))"
  by pat_completeness auto
termination
proof (relation "measures
    [\<lambda>x. case x of
            Inl (oldObj, newObj, path) \<Rightarrow> length path
          | Inr (Inl (oldObj, newObj, path)) \<Rightarrow> length path
          | Inr (Inr (xs, newArray, remainingPath, i)) \<Rightarrow> length remainingPath,
     \<lambda>x. case x of
            Inl (oldObj, newObj, path) \<Rightarrow> 1
          | Inr (Inl (oldObj, newObj, path)) \<Rightarrow> 0
          | Inr (Inr (xs, newArray, remainingPath, i)) \<Rightarrow> 2,
     \<lambda>x. case x of
            Inl (oldObj, newObj, path) \<Rightarrow> 0
          | Inr (Inl (oldObj, newObj, path)) \<Rightarrow> 0
          | Inr (Inr (xs, newArray, remainingPath, i)) \<Rightarrow> length xs]", goal_cases)
  case 1
  then show ?case by simp
next
  case (2 oldObj newObj path)
  then show ?case by simp
next
  case (3 oldObj newObj path arrayPath remainingPath oldArray newArray xs)
  then show ?case using remainingPath_shorter [of path] by simp
next
  case (4 oldItem rest newArray remainingPath i newItem)
  then show ?case by simp
next
  case (5 oldItem rest newArray remainingPath i newItem)
  then show ?case by simp
qed

declare compareAndDeleteByPath.simps [simp del]
declare compareArrayPath.simps [simp del]


section \<open>Full cleanup (middlewares/cleanupImages.js)\<close>

text \<open>
  As for the comparison functions, the model of a traversal is the list of values it passes
  to \<^verbatim>\<open>deleteImage\<close>, in call order.
\<close>

text \<open>The loop of \<^verbatim>\<open>handleSimplePath\<close> over an array at the end of a path.\<close>

fun handle_strings_loop :: "json list \<Rightarrow> json list" where
  "handle_strings_loop [] = []"
| "handle_strings_loop (item # rest) =
     (if typeof_string item then [item] else []) @ handle_strings_loop rest"

definition handleSimplePath :: "json \<Rightarrow> string \<Rightarrow> json list" where
  "handleSimplePath obj path =
     (let v = getNestedValue obj path
      in if typeof_string v then [v]
         else (case v of JArr xs \<Rightarrow> handle_strings_loop xs | _ \<Rightarrow> []))"

function deleteImagesByPath :: "json \<Rightarrow> string \<Rightarrow> json list"
  and handleArrayPath :: "json \<Rightarrow> string \<Rightarrow> json list"
  and handle_items_loop :: "json list \<Rightarrow> string \<Rightarrow> json list"
where
  "deleteImagesByPath obj path =
     (if \<not> truthy obj \<or> path = [] then []
      else if includes_brackets path then handleArrayPath obj path
      else handleSimplePath obj path)"
| "handleArrayPath obj path =
     (let arrayPath = arrayPath_of path;
          remainingPath = remainingPath_of path;
          arrayObj = getNestedValue obj arrayPath
      in case arrayObj of
           JArr xs \<Rightarrow> handle_items_loop xs remainingPath
         | _ \<Rightarrow> [])"
| "handle_items_loop [] remainingPath = []"
| "handle_items_loop (item # rest) remainingPath =
     (if remainingPath \<noteq> [] then deleteImagesByPath item remainingPath
      else if typeof_string item then [item] else [])
     @ handle_items_loop rest remainingPath"
  by pat_completeness auto
termination
proof (relation "measures
    [\<lambda>x. case x of
            Inl (obj, path) \<Rightarrow> 3 * length path + 2
          | Inr (Inl (obj, path)) \<Rightarrow> 3 * length path + 1
          | Inr (Inr (xs, remainingPath)) \<Rightarrow>
              (if remainingPath = [] then 0 else 3 * length remainingPath + 3),
     \<lambda>x. case x of
            Inl (obj, path) \<Rightarrow> 0
          | Inr (Inl (obj, path)) \<Rightarrow> 0
          | Inr (Inr (xs, remainingPath)) \<Rightarrow> length xs]", goal_cases)
  case 1
  then show ?case by simp
next
  case (2 obj path)
  then show ?case by simp
next
  case (3 obj path arrayPath remainingPath arrayObj xs)
  then show ?case using remainingPath_shorter [of path] by auto
next
  case (4 item rest remainingPath)
  then show ?case by simp
next
  case (5 item rest remainingPath)
  then show ?case by simp
qed

declare deleteImagesByPath.simps [simp del]
declare handleArrayPath.simps [simp del]

section \<open>Property reads on object literals\<close>

text \<open>
  \<^verbatim>\<open>literal[key]\<close> on an object literal finds an own property, or else a member the
  literal inherits from \<^verbatim>\<open>Object.prototype\<close>: a function, or for
  \<^verbatim>\<open>__proto__\<close> the prototype object. Every inherited member is truthy, none is
  iterable and none is a string.
\<close>

definition object_prototype_keys :: "string list" where
  "object_prototype_keys =
     [''constructor'', ''__defineGetter__'', ''__defineSetter__'', ''hasOwnProperty'',
      ''__lookupGetter__'', ''__lookupSetter__'', ''isPrototypeOf'', ''propertyIsEnumerable'',
      ''toString'', ''valueOf'', ''__proto__'', ''toLocaleString'']"

datatype 'a looked_up = Own 'a | Inherited | Missing

definition literal_get :: "(string \<times> 'a) list \<Rightarrow> string \<Rightarrow> 'a looked_up" where
  "literal_get kvs k =
     (case map_of kvs k of
        Some v \<Rightarrow> Own v
      | None \<Rightarrow> if k \<in> set object_prototype_keys then Inherited else Missing)"

section \<open>Path Descriptor Registry (config/imageConfig.js)\<close>

definition imageConfig :: "(string \<times> string list) list" where
  "imageConfig =
     [(''Testimonial'', [''image'']),
      (''ExpertiseIndustry'', [''image'']),
      (''EngagementModel'', [''modelImage'']),
      (''SeoManager'', [''cover_image'']),
      (''CreativeWork'', [''image'']),
      (''ServiceTechnologyList'', [''image'']),
      (''OurServicesMain'',
         [''heroSections.image'',
          ''heroSections.points[].image'',
          ''technologyDetails.image'',
          ''technologyDetails.technologyDetail[].image'',
          ''technologyDetails.developmentDetail[].image'']),
      (''Service'',
         [''contentBlocks[].image'',
          ''WhyWorkWithThis.image'',
          ''whyCompanyPerfersThis.content[].image'']),
      (''HomeChooseIts'', [''image'']),
      (''HirePageData'',
         [''successSpeacks.image'',
          ''hireDadiated.image'',
          ''unloackPower.image'']),
      (''OpenningPosition'', [''image'']),
      (''CareerContent'',
         [''heroSection.image'',
          ''careerAtIts.image'',
          ''whyJoinIts.points[].image'']),
      (''Blog'', [''image'', ''cover_image'']),
      (''AboutUs'',
         [''heroSection.points[].image'',
          ''whoWeAre.image'',
          ''goals.missionImage'',
          ''goals.visionImage'',
          ''goals.valuesImage'']),
      (''NavbarGroupTabImageManage'', [''image'']),
      (''User'', [''profile_picture'']),
      (''HireMainPageData'',
         [''developmentTeamSection.image'',
          ''dedicatedDeveloperSection.services[].serviceItemBox[].image'',
          ''whyHireDeveloperforYourProject.detailBox[].image'',
          ''whyChooseItsForDedicatedResources.detailBox[].image'']),
      (''PortfolioContent'',
         [''heroSection.image'',
          ''heroSection.points[].image'']),
      (''TrainingMainPageData'',
         [''heroSection.image'',
          ''aboutusSection.image'',
          ''itsInstituteFacilitiesSection.points[].image'',
          ''rightCoursePickSection.cardBox[].image'',
          ''rightCoursePickSection.detailbox[].image'']),
      (''HomePageData'',
         [''heroSecton.image'',
          ''heroSecton.technologySection[].image'',
          ''reasonsToChoose.deatailBox[].image'',
          ''aboutOurCompany.deatailBox[].image'',
          ''aboutOurCompany.image'',
          ''aboutOurCompany.buttonContent.image'',
          ''overseasWebAgencies.image''])]"

text \<open>
  \<^verbatim>\<open>imageConfig[modelName] || []\<close>: the registered list, the empty list for a name
  that is not found, and for the name of an inherited member that member, which is not a
  list and cannot be iterated (\<open>None\<close>).
\<close>

definition config_paths :: "string \<Rightarrow> string list option" where
  "config_paths modelName =
     (case literal_get imageConfig modelName of
        Own paths \<Rightarrow> Some paths
      | Inherited \<Rightarrow> None
      | Missing \<Rightarrow> Some [])"

section \<open>Remote Asset Deletion Gateway (services/imageService.js)\<close>

text \<open>
  Thrown values. All are error objects but \<open>ThrownNull\<close>, which stands for a rejection
  with \<^verbatim>\<open>null\<close> or \<^verbatim>\<open>undefined\<close>: reading its \<^verbatim>\<open>message\<close> in a
  \<^verbatim>\<open>catch\<close> block is a TypeError.
\<close>

datatype exn =
    ThrownNull
  | TypeError
  | InvalidLinkedType string
  | ValidationError
  | DuplicateKey
  | StoreFailure
  | RemoteFailure string

datatype console_line = ConsoleLog string | ConsoleWarn string | ConsoleError string

text \<open>
  The effects of the image pipeline: the public ids passed to
  \<^verbatim>\<open>cloudinary.uploader.destroy\<close>, in call order, and the console lines written (by
  their fixed text, without the interpolated values).
\<close>

record world =
  destroy_calls :: "string list"
  console :: "console_line list"

definition emit :: "console_line \<Rightarrow> world \<Rightarrow> world" where
  "emit l w = w\<lparr>console := console w @ [l]\<rparr>"

text \<open>
  The remote service is a parameter: given the ids it was asked to destroy before and the
  id of this call, the call rejects (\<open>Inl\<close>) or resolves with a result value.
\<close>

type_synonym cloudinary = "string list \<Rightarrow> string \<Rightarrow> exn + json"

text \<open>
  The \<^verbatim>\<open>try\<close> block of \<^verbatim>\<open>extractPublicId\<close>: \<^verbatim>\<open>url.split\<close> is not a
  function unless \<open>url\<close> is a string.
\<close>

definition extractPublicId_try :: "json \<Rightarrow> exn + string" where
  "extractPublicId_try url =
     (case url of
        JStr s \<Rightarrow>
          (let parts = split_char CHR ''/'' s;
               publicIdWithExt = last parts
           in Inr (hd (split_char CHR ''.'' publicIdWithExt)))
      | _ \<Rightarrow> Inl TypeError)"

text \<open>\<open>None\<close> is the \<^verbatim>\<open>null\<close> result.\<close>

definition extractPublicId :: "json \<Rightarrow> world \<Rightarrow> string option \<times> world" where
  "extractPublicId url w =
     (if \<not> truthy url then (None, w)
      else case extractPublicId_try url of
             Inr publicId \<Rightarrow> (Some publicId, w)
           | Inl err \<Rightarrow> (None, emit (ConsoleError ''Failed to extract publicId'') w))"

text \<open>\<^verbatim>\<open>result.result\<close>: a TypeError on \<^verbatim>\<open>null\<close> and \<^verbatim>\<open>undefined\<close>.\<close>

definition result_field :: "json \<Rightarrow> exn + json" where
  "result_field r =
     (case r of
        JUndefined \<Rightarrow> Inl TypeError
      | JNull \<Rightarrow> Inl TypeError
      | JObj kvs \<Rightarrow> Inr (js_get (JObj kvs) ''result'')
      | _ \<Rightarrow> Inr JUndefined)"

text \<open>The \<^verbatim>\<open>try\<close> block of \<^verbatim>\<open>deleteImage\<close>.\<close>

definition deleteImage_try :: "cloudinary \<Rightarrow> string \<Rightarrow> world \<Rightarrow> (exn + unit) \<times> world" where
  "deleteImage_try remote publicId w =
     (let w1 = w\<lparr>destroy_calls := destroy_calls w @ [publicId]\<rparr>
      in case remote (destroy_calls w) publicId of
           Inl err \<Rightarrow> (Inl err, w1)
         | Inr result \<Rightarrow>
             (case result_field result of
                Inl err \<Rightarrow> (Inl err, w1)
              | Inr r \<Rightarrow>
                  if strict_eq r (JStr ''ok'')
                  then (Inr (), emit (ConsoleLog ''Successfully deleted'') w1)
                  else if strict_eq r (JStr ''not found'')
                  then (Inr (), emit (ConsoleWarn ''Image not found on Cloudinary'') w1)
                  else (Inr (), emit (ConsoleError ''Failed to delete'') w1)))"

text \<open>
  \<^verbatim>\<open>deleteImage\<close>. Its \<^verbatim>\<open>catch\<close> block builds the console line from
  \<^verbatim>\<open>err.message\<close>.
\<close>

definition deleteImage :: "cloudinary \<Rightarrow> json \<Rightarrow> world \<Rightarrow> (exn + unit) \<times> world" where
  "deleteImage remote imageUrl w =
     (if \<not> truthy imageUrl then (Inr (), w)
      else case extractPublicId imageUrl w of
             (None, w1) \<Rightarrow> (Inr (), w1)
           | (Some publicId, w1) \<Rightarrow>
               if publicId = [] then (Inr (), w1)
               else (case deleteImage_try remote publicId w1 of
                       (Inl err, w2) \<Rightarrow>
                         (case err of
                            ThrownNull \<Rightarrow> (Inl TypeError, w2)
                          | _ \<Rightarrow> (Inr (), emit (ConsoleError ''Error deleting image'') w2))
                     | (Inr u, w2) \<Rightarrow> (Inr (), w2)))"

text \<open>
  The awaited \<^verbatim>\<open>deleteImage\<close> calls of one traversal, in order; an exception of
  one call would end the traversal.
\<close>

fun deleteImage_each :: "cloudinary \<Rightarrow> json list \<Rightarrow> world \<Rightarrow> (exn + unit) \<times> world" where
  "deleteImage_each remote [] w = (Inr (), w)"
| "deleteImage_each remote (v # vs) w =
     (case deleteImage remote v w of
        (Inl err, w1) \<Rightarrow> (Inl err, w1)
      | (Inr u, w1) \<Rightarrow> deleteImage_each remote vs w1)"

section \<open>The two cleanup operations\<close>

text \<open>
  The loop over the configured paths in \<^verbatim>\<open>deleteImagesByConfig\<close>. In both
  cleanup operations \<^verbatim>\<open>for (const path of paths)\<close> throws a TypeError when
  \<^verbatim>\<open>paths\<close> is an inherited member.
\<close>

fun delete_paths_loop ::
  "cloudinary \<Rightarrow> json \<Rightarrow> string list \<Rightarrow> world \<Rightarrow> (exn + unit) \<times> world" where
  "delete_paths_loop remote record [] w = (Inr (), w)"
| "delete_paths_loop remote record (path # paths) w =
     (case deleteImage_each remote (deleteImagesByPath record path) w of
        (Inl err, w1) \<Rightarrow> (Inl err, w1)
      | (Inr u, w1) \<Rightarrow> delete_paths_loop remote record paths w1)"

definition deleteImagesByConfig ::
  "cloudinary \<Rightarrow> json \<Rightarrow> string \<Rightarrow> world \<Rightarrow> (exn + unit) \<times> world" where
  "deleteImagesByConfig remote record modelName w =
     (if \<not> truthy record then (Inr (), w)
      else let paths = config_paths modelName;
               w1 = emit (ConsoleLog ''Starting image cleanup with paths'') w
           in case paths of
                None \<Rightarrow> (Inl TypeError, w1)
              | Some ps \<Rightarrow> delete_paths_loop remote record ps w1)"

text \<open>The loop over the configured paths in the \<^verbatim>\<open>cleanupOldImages\<close> middleware.\<close>

fun compare_paths_loop ::
  "cloudinary \<Rightarrow> json \<Rightarrow> json \<Rightarrow> string list \<Rightarrow> world \<Rightarrow> (exn + unit) \<times> world" where
  "compare_paths_loop remote oldData newData [] w = (Inr (), w)"
| "compare_paths_loop remote oldData newData (path # paths) w =
     (case deleteImage_each remote (compareAndDeleteByPath oldData newData path)
             (emit (ConsoleLog ''Processing path'') w) of
        (Inl err, w1) \<Rightarrow> (Inl err, w1)
      | (Inr u, w1) \<Rightarrow> compare_paths_loop remote oldData newData paths w1)"

text \<open>
  What a middleware does with the request: hand it on (\<^verbatim>\<open>next()\<close>) or answer
  with a status.
\<close>

datatype response = Next | Status nat

text \<open>
  The middleware returned by \<^verbatim>\<open>cleanupOldImages(model, modelName)\<close>. \<open>found\<close> is
  the outcome of \<^verbatim>\<open>model.findById\<close>: a rejection, or the stored record as a plain
  object (\<open>JNull\<close> when there is none); \<open>body\<close> is \<^verbatim>\<open>req.body\<close>.
\<close>

definition cleanupOldImages ::
  "cloudinary \<Rightarrow> exn + json \<Rightarrow> string \<Rightarrow> json \<Rightarrow> world \<Rightarrow> response \<times> world" where
  "cleanupOldImages remote found modelName body w =
     (let w0 = emit (ConsoleLog ''Cleanup called for model'') w
      in case found of
           Inl err \<Rightarrow> (Status 500, emit (ConsoleError ''Old image cleanup error'') w0)
         | Inr record \<Rightarrow>
             if \<not> truthy record then (Status 404, w0)
             else let paths = config_paths modelName;
                      w1 = emit (ConsoleLog ''Config paths'') w0
                  in case (case paths of
                             None \<Rightarrow> (Inl TypeError, w1)
                           | Some ps \<Rightarrow> compare_paths_loop remote record body ps w1) of
                       (Inl err, w2) \<Rightarrow>
                         (Status 500, emit (ConsoleError ''Old image cleanup error'') w2)
                     | (Inr u, w2) \<Rightarrow> (Next, w2))"

text \<open>
  The middleware returned by \<^verbatim>\<open>cleanupImages(model)\<close>; \<open>modelName\<close> is
  \<^verbatim>\<open>model.modelName\<close>.
\<close>

definition cleanupImages ::
  "cloudinary \<Rightarrow> exn + json \<Rightarrow> string \<Rightarrow> world \<Rightarrow> response \<times> world" where
  "cleanupImages remote found modelName w =
     (case found of
        Inl err \<Rightarrow> (Status 500, emit (ConsoleError ''Image cleanup error'') w)
      | Inr record \<Rightarrow>
          if \<not> truthy record then (Status 404, w)
          else (case deleteImagesByConfig remote record modelName
                       (emit (ConsoleLog ''Starting image cleanup for'') w) of
                  (Inl err, w1) \<Rightarrow> (Status 500, emit (ConsoleError ''Image cleanup error'') w1)
                | (Inr u, w1) \<Rightarrow> (Next, emit (ConsoleLog ''Image cleanup complete'') w1)))"

section \<open>Slug-Keyed Metadata Synchronizer (utils/seoSync.js, models/seo/seo-manager.js)\<close>

type_synonym oid = nat

text \<open>
  A document of the \<^verbatim>\<open>SeoManager\<close> collection, by the fields of its schema. The
  string fields that \<^verbatim>\<open>syncSeoData\<close> assigns from its title argument may hold
  \<^verbatim>\<open>null\<close> in memory (\<open>None\<close>); the link fields default to \<^verbatim>\<open>null\<close>.
\<close>

record seo_doc =
  seo_id :: oid
  title :: "string option"
  slug :: string
  seo_keyphrase :: "string option"
  seo_title :: "string option"
  meta_description :: string
  cover_image :: string
  linkedService :: "oid option"
  linkedHirePage :: "oid option"
  linkedType :: string
  isAutoManaged :: bool

text \<open>
  The part of a \<^verbatim>\<open>Service\<close> or \<^verbatim>\<open>HirePageData\<close> document that
  \<^verbatim>\<open>updateLinkedEntity\<close> writes.
\<close>

record content_doc =
  content_id :: oid
  content_slug :: string
  subCategory :: string

datatype db_op = OpFindOne | OpSave | OpFindOneAndDelete | OpFindByIdAndUpdate

text \<open>
  What the synchronizer acts on. The database: the three collections, the id the next
  constructed document gets, whether the server answers (when it does not, every operation
  rejects), and the operations sent to it so far. And the console lines the synchronizer
  wrote (by their fixed text).
\<close>

record db =
  seo_docs :: "seo_doc list"
  services :: "content_doc list"
  hire_pages :: "content_doc list"
  fresh_id :: oid
  available :: bool
  oplog :: "db_op list"
  sync_console :: "console_line list"

definition sent :: "db_op \<Rightarrow> db \<Rightarrow> db" where
  "sent operation d = d\<lparr>oplog := oplog d @ [operation]\<rparr>"

definition logged :: "console_line \<Rightarrow> db \<Rightarrow> db" where
  "logged l d = d\<lparr>sync_console := sync_console d @ [l]\<rparr>"

text \<open>
  The \<^verbatim>\<open>catch\<close> block of each synchronizer function:
  \<^verbatim>\<open>console.error(msg, error); throw error;\<close>.
\<close>

definition catch_rethrow :: "string \<Rightarrow> (exn + 'a) \<times> db \<Rightarrow> (exn + 'a) \<times> db" where
  "catch_rethrow msg r =
     (case r of
        (Inl err, d) \<Rightarrow> (Inl err, logged (ConsoleError msg) d)
      | (Inr v, d) \<Rightarrow> (Inr v, d))"

text \<open>\<^verbatim>\<open>SeoManager.findOne(filter)\<close>: the first matching document, or \<^verbatim>\<open>null\<close>.\<close>

definition seo_findOne :: "(seo_doc \<Rightarrow> bool) \<Rightarrow> db \<Rightarrow> (exn + seo_doc option) \<times> db" where
  "seo_findOne P d =
     (if available d then (Inr (find P (seo_docs d)), sent OpFindOne d)
      else (Inl StoreFailure, sent OpFindOne d))"

text \<open>
  Schema validation on save: \<^verbatim>\<open>title\<close> and \<^verbatim>\<open>slug\<close> are required (a
  required string is neither \<^verbatim>\<open>null\<close> nor empty), \<^verbatim>\<open>linkedType\<close> is one of
  the three values of its enum.
\<close>

definition required_string :: "string option \<Rightarrow> bool" where
  "required_string v = (case v of Some s \<Rightarrow> s \<noteq> [] | None \<Rightarrow> False)"

definition valid_seo :: "seo_doc \<Rightarrow> bool" where
  "valid_seo r =
     (required_string (title r) \<and> slug r \<noteq> []
      \<and> linkedType r \<in> set [''service'', ''hire'', ''independent''])"

text \<open>
  \<^verbatim>\<open>doc.save()\<close>: validation first, then the write, which the unique index on
  \<^verbatim>\<open>slug\<close> refuses when another document holds the slug. A document whose id is
  stored is replaced, a new one is added.
\<close>

definition seo_save :: "seo_doc \<Rightarrow> db \<Rightarrow> (exn + seo_doc) \<times> db" where
  "seo_save r d =
     (if \<not> valid_seo r then (Inl ValidationError, d)
      else if \<not> available d then (Inl StoreFailure, sent OpSave d)
      else if list_ex (\<lambda>x. seo_id x \<noteq> seo_id r \<and> slug x = slug r) (seo_docs d)
      then (Inl DuplicateKey, sent OpSave d)
      else if list_ex (\<lambda>x. seo_id x = seo_id r) (seo_docs d)
      then (Inr r, (sent OpSave d)
                     \<lparr>seo_docs := map (\<lambda>x. if seo_id x = seo_id r then r else x) (seo_docs d)\<rparr>)
      else (Inr r, (sent OpSave d)\<lparr>seo_docs := seo_docs d @ [r]\<rparr>))"

fun delete_first :: "('a \<Rightarrow> bool) \<Rightarrow> 'a list \<Rightarrow> 'a list" where
  "delete_first P [] = []"
| "delete_first P (x # xs) = (if P x then xs else x # delete_first P xs)"

text \<open>\<^verbatim>\<open>SeoManager.findOneAndDelete({ slug })\<close>: removes the first matching document.\<close>

definition seo_findOneAndDelete :: "string \<Rightarrow> db \<Rightarrow> (exn + unit) \<times> db" where
  "seo_findOneAndDelete s d =
     (if available d
      then (Inr (), (sent OpFindOneAndDelete d)
                      \<lparr>seo_docs := delete_first (\<lambda>x. slug x = s) (seo_docs d)\<rparr>)
      else (Inl StoreFailure, sent OpFindOneAndDelete d))"




text \<open>
  What \<^verbatim>\<open>linkField\<close> can be: one of the two link fields of the schema, or an
  inherited member of \<^verbatim>\<open>linkFieldMap\<close>, which used as a computed key names no
  path of the schema (\<open>NoSchemaPath\<close>). A filter on such a key matches no document, and
  a value assigned under it is not part of the stored document.
\<close>

datatype link_field = LinkedService | LinkedHirePage | NoSchemaPath

definition linkFieldMap :: "(string \<times> link_field) list" where
  "linkFieldMap = [(''service'', LinkedService), (''hire'', LinkedHirePage)]"

text \<open>\<^verbatim>\<open>linkFieldMap[type]\<close>; \<open>None\<close> is \<^verbatim>\<open>undefined\<close>, the only falsy result.\<close>

definition link_field_of :: "string \<Rightarrow> link_field option" where
  "link_field_of typeArg =
     (case literal_get linkFieldMap typeArg of
        Own f \<Rightarrow> Some f
      | Inherited \<Rightarrow> Some NoSchemaPath
      | Missing \<Rightarrow> None)"

fun get_link :: "link_field \<Rightarrow> seo_doc \<Rightarrow> oid option" where
  "get_link LinkedService r = linkedService r"
| "get_link LinkedHirePage r = linkedHirePage r"
| "get_link NoSchemaPath r = None"

fun set_link :: "link_field \<Rightarrow> oid option \<Rightarrow> seo_doc \<Rightarrow> seo_doc" where
  "set_link LinkedService v r = r\<lparr>linkedService := v\<rparr>"
| "set_link LinkedHirePage v r = r\<lparr>linkedHirePage := v\<rparr>"
| "set_link NoSchemaPath v r = r"

text \<open>\<^verbatim>\<open>subCategory || title\<close>, with \<open>None\<close> for \<^verbatim>\<open>null\<close> and \<^verbatim>\<open>undefined\<close>.\<close>

definition js_or :: "string option \<Rightarrow> string option \<Rightarrow> string option" where
  "js_or a b = (case a of Some s \<Rightarrow> (if s \<noteq> [] then Some s else b) | None \<Rightarrow> b)"

text \<open>
  Steps 1 and 2 of \<^verbatim>\<open>syncSeoData\<close>: the lookup by the linked id when one is given,
  then by slug when nothing was found.
\<close>

definition sync_lookup ::
  "link_field \<Rightarrow> oid option \<Rightarrow> string \<Rightarrow> db \<Rightarrow> (exn + seo_doc option) \<times> db" where
  "sync_lookup linkField linkedId slugArg d =
     (case (case linkedId of
              Some i \<Rightarrow> seo_findOne (\<lambda>r. get_link linkField r = Some i) d
            | None \<Rightarrow> (Inr None, d)) of
        (Inl err, d1) \<Rightarrow> (Inl err, d1)
      | (Inr (Some r), d1) \<Rightarrow> (Inr (Some r), d1)
      | (Inr None, d1) \<Rightarrow> seo_findOne (\<lambda>r. slug r = slugArg) d1)"

text \<open>
  The \<^verbatim>\<open>try\<close> block of
  \<^verbatim>\<open>syncSeoData(subCategory, slug, title, type, linkedId)\<close>. The text of
  \<^verbatim>\<open>meta_description\<close> for a \<^verbatim>\<open>null\<close> title interpolates \<^verbatim>\<open>null\<close>.
\<close>

definition syncSeoData_try ::
  "string option \<Rightarrow> string \<Rightarrow> string option \<Rightarrow> string \<Rightarrow> oid option \<Rightarrow> db
     \<Rightarrow> (exn + seo_doc) \<times> db" where
  "syncSeoData_try subCat slugArg titleArg typeArg linkedId d =
     (let seoTitle = js_or subCat titleArg
      in case link_field_of typeArg of
           None \<Rightarrow> (Inl (InvalidLinkedType typeArg), d)
         | Some linkField \<Rightarrow>
             (case sync_lookup linkField linkedId slugArg d of
                (Inl err, d1) \<Rightarrow> (Inl err, d1)
              | (Inr (Some existingSeo), d1) \<Rightarrow>
                  if \<not> isAutoManaged existingSeo \<and> linkedType existingSeo = ''independent''
                  then seo_save
                         (set_link linkField linkedId
                            (existingSeo\<lparr>title := seoTitle, slug := slugArg, seo_title := seoTitle\<rparr>)
                          \<lparr>linkedType := typeArg, isAutoManaged := True\<rparr>)
                         (logged (ConsoleLog ''Converting independent SEO to auto-managed'') d1)
                  else if isAutoManaged existingSeo \<or> linkedType existingSeo = typeArg
                  then seo_save
                         (set_link linkField linkedId
                            (existingSeo\<lparr>title := seoTitle, slug := slugArg\<rparr>)
                          \<lparr>linkedType := typeArg, isAutoManaged := True\<rparr>)
                         (logged (ConsoleLog ''Found existing auto-managed SEO. Updating'') d1)
                  else (Inr existingSeo, d1)
              | (Inr None, d1) \<Rightarrow>
                  seo_save
                    (set_link linkField linkedId
                       \<lparr>seo_id = fresh_id d1,
                        title = seoTitle,
                        slug = slugArg,
                        seo_keyphrase = seoTitle,
                        seo_title = seoTitle,
                        meta_description =
                          ''Learn more about ''
                          @ (case seoTitle of Some t \<Rightarrow> t | None \<Rightarrow> ''null'')
                          @ '' - professional services and solutions'',
                        cover_image = [],
                        linkedService = None,
                        linkedHirePage = None,
                        linkedType = typeArg,
                        isAutoManaged = True\<rparr>)
                    ((logged (ConsoleLog ''No existing SEO found. Creating new entry'') d1)
                       \<lparr>fresh_id := Suc (fresh_id d1)\<rparr>)))"

text \<open>\<^verbatim>\<open>syncSeoData\<close>: the block above under its \<^verbatim>\<open>catch\<close>.\<close>

definition syncSeoData ::
  "string option \<Rightarrow> string \<Rightarrow> string option \<Rightarrow> string \<Rightarrow> oid option \<Rightarrow> db
     \<Rightarrow> (exn + seo_doc) \<times> db" where
  "syncSeoData subCat slugArg titleArg typeArg linkedId d =
     catch_rethrow ''Error syncing SEO data:''
       (syncSeoData_try subCat slugArg titleArg typeArg linkedId d)"



text \<open>
  \<^verbatim>\<open>safeDeleteSeoData(slug)\<close>: its \<^verbatim>\<open>try\<close> block, then the function.
  \<open>False\<close> is the blocked result.
\<close>

definition safeDeleteSeoData_try :: "string \<Rightarrow> db \<Rightarrow> (exn + bool) \<times> db" where
  "safeDeleteSeoData_try slugArg d =
     (case seo_findOne (\<lambda>r. slug r = slugArg) d of
        (Inl err, d1) \<Rightarrow> (Inl err, d1)
      | (Inr None, d1) \<Rightarrow> (Inr True, d1)
      | (Inr (Some seoEntry), d1) \<Rightarrow>
          if \<not> isAutoManaged seoEntry
          then (case seo_findOneAndDelete slugArg d1 of
                  (Inl err, d2) \<Rightarrow> (Inl err, d2)
                | (Inr u, d2) \<Rightarrow> (Inr True, d2))
          else (Inr False, logged (ConsoleLog ''Blocked deletion of auto-managed SEO'') d1))"

definition safeDeleteSeoData :: "string \<Rightarrow> db \<Rightarrow> (exn + bool) \<times> db" where
  "safeDeleteSeoData slugArg d =
     catch_rethrow ''Error deleting SEO data:'' (safeDeleteSeoData_try slugArg d)"

text \<open>\<^verbatim>\<open>forceDeleteSeoData(slug)\<close>: its \<^verbatim>\<open>try\<close> block, then the function.\<close>

definition forceDeleteSeoData_try :: "string \<Rightarrow> db \<Rightarrow> (exn + bool) \<times> db" where
  "forceDeleteSeoData_try slugArg d =
     (case seo_findOneAndDelete slugArg d of
        (Inl err, d1) \<Rightarrow> (Inl err, d1)
      | (Inr u, d1) \<Rightarrow> (Inr True, d1))"

definition forceDeleteSeoData :: "string \<Rightarrow> db \<Rightarrow> (exn + bool) \<times> db" where
  "forceDeleteSeoData slugArg d =
     catch_rethrow ''Error force deleting SEO data:'' (forceDeleteSeoData_try slugArg d)"

text \<open>
  The invariant of a metadata record as the specification states it:
  \<^verbatim>\<open>isAutoManaged\<close> holds exactly when the link type is \<^verbatim>\<open>service\<close> or
  \<^verbatim>\<open>hire\<close>, and exactly when exactly one of the two link fields is set.
\<close>

definition managed_iff_typed :: "seo_doc \<Rightarrow> bool" where
  "managed_iff_typed r = (isAutoManaged r \<longleftrightarrow> linkedType r \<in> set [''service'', ''hire''])"

definition one_link :: "seo_doc \<Rightarrow> bool" where
  "one_link r = ((linkedService r \<noteq> None) \<noteq> (linkedHirePage r \<noteq> None))"

definition seo_invariant :: "seo_doc \<Rightarrow> bool" where
  "seo_invariant r = (managed_iff_typed r \<and> (isAutoManaged r \<longleftrightarrow> one_link r))"

section \<open>Example databases and documents\<close>

text \<open>A responsive database holding the given metadata documents, and two documents.\<close>

abbreviation db_with :: "seo_doc list \<Rightarrow> db" where
  "db_with docs \<equiv>
     \<lparr>seo_docs = docs, services = [], hire_pages = [], fresh_id = 100,
      available = True, oplog = [], sync_console = []\<rparr>"

abbreviation independent_doc :: "oid \<Rightarrow> string \<Rightarrow> seo_doc" where
  "independent_doc i s \<equiv>
     \<lparr>seo_id = i, title = Some ''Page'', slug = s, seo_keyphrase = Some [],
      seo_title = Some [], meta_description = [], cover_image = [],
      linkedService = None, linkedHirePage = None,
      linkedType = ''independent'', isAutoManaged = False\<rparr>"

abbreviation managed_doc ::
  "oid \<Rightarrow> string \<Rightarrow> string \<Rightarrow> oid option \<Rightarrow> oid option \<Rightarrow> seo_doc" where
  "managed_doc i s t ls lh \<equiv>
     \<lparr>seo_id = i, title = Some ''Page'', slug = s, seo_keyphrase = Some [],
      seo_title = Some [], meta_description = [], cover_image = [],
      linkedService = ls, linkedHirePage = lh,
      linkedType = t, isAutoManaged = True\<rparr>"

section \<open>Properties of path splitting and of the comparison loops\<close>

lemma split_brackets_plain:
  "\<not> includes_brackets p \<Longrightarrow> split_brackets p = [p]"
  by (induction p rule: split_brackets.induct) auto

lemma split_brackets_append:
  "\<not> includes_brackets p \<Longrightarrow>
   split_brackets (p @ CHR ''['' # CHR '']'' # r) = p # split_brackets r"
  by (induction p rule: split_brackets.induct) auto

lemma includes_brackets_append:
  "includes_brackets (p @ CHR ''['' # CHR '']'' # r)"
  by (induction p rule: includes_brackets.induct) auto

lemma includes_brackets_dot:
  "\<not> includes_brackets r \<Longrightarrow> \<not> includes_brackets (CHR ''.'' # r)"
  by (cases r) auto

lemma arrayPath_of_plain_brackets:
  "\<not> includes_brackets p \<Longrightarrow> \<not> endsWith_dot p \<Longrightarrow>
   arrayPath_of (p @ CHR ''['' # CHR '']'' # r) = p"
  by (simp add: arrayPath_of_def split_brackets_append)

lemma remainingPath_of_end: "\<not> includes_brackets p \<Longrightarrow> remainingPath_of (p @ ''[]'') = []"
  by (simp add: remainingPath_of_def split_brackets_append)

lemma remainingPath_of_single:
  "\<not> includes_brackets p \<Longrightarrow> \<not> includes_brackets r \<Longrightarrow>
   remainingPath_of (p @ ''[].'' @ r) = r"
  using split_brackets_append [of p "CHR ''.'' # r"] includes_brackets_dot [of r]
  by (simp add: remainingPath_of_def split_brackets_plain)

lemma strict_eq_JStr: "strict_eq (JStr s) v \<longleftrightarrow> v = JStr s"
  by (cases v) auto

lemma getNestedValue_defined_truthy:
  "getNestedValue obj path \<noteq> JUndefined \<Longrightarrow> truthy obj"
  by (auto simp: getNestedValue_def split: if_splits)

lemma compare_images_loop_filter:
  "compare_images_loop xs newArray i =
     map (\<lambda>j. xs ! j)
       (filter (\<lambda>j. truthy (xs ! j) \<and> \<not> strict_eq (xs ! j) (opt_index newArray (i + j)))
          [0..<length xs])"
proof (induction xs arbitrary: i)
  case Nil
  then show ?case by simp
next
  case (Cons x xs)
  have up: "[0..<length (x # xs)] = 0 # map Suc [0..<length xs]"
    by (simp add: upt_conv_Cons map_Suc_upt del: upt_Suc)
  show ?case
    unfolding up by (simp add: Cons.IH filter_map comp_def Let_def)
qed

lemma compare_images_loop_truthy:
  "v \<in> set (compare_images_loop xs newArray i) \<Longrightarrow> truthy v \<and> v \<in> set xs"
  by (induction xs arbitrary: i) (auto simp: Let_def split: if_splits)

lemma compare_items_loop_append:
  "compare_items_loop (as @ bs) newArray rem k =
     compare_items_loop as newArray rem k
     @ compare_items_loop bs newArray rem (k + length as)"
  by (induction as arbitrary: k) (simp_all add: Let_def)

lemma strings_loop:
  "compare_images_loop (map JStr xs) newArray 0 =
     map JStr (map (\<lambda>i. xs ! i)
       (filter (\<lambda>i. xs ! i \<noteq> [] \<and> opt_index newArray i \<noteq> JStr (xs ! i)) [0..<length xs]))"
proof -
  have "filter (\<lambda>j. truthy (map JStr xs ! j)
                    \<and> \<not> strict_eq (map JStr xs ! j) (opt_index newArray (0 + j)))
          [0..<length (map JStr xs)]
      = filter (\<lambda>i. xs ! i \<noteq> [] \<and> opt_index newArray i \<noteq> JStr (xs ! i)) [0..<length xs]"
    by (rule filter_cong) (auto simp: strict_eq_JStr)
  then show ?thesis
    by (simp add: compare_images_loop_filter)
qed

section \<open>Differential cleanup: single strings and sequences\<close>

text \<open>
  Claim C2. For a path without \<^verbatim>\<open>[]\<close> whose old leaf is a single string,
  \<^verbatim>\<open>compareSimplePath\<close> marks exactly that string when the new value at the path
  is not the same string (also when it is absent or empty), and marks nothing when it is
  the same string; \<^verbatim>\<open>compareAndDeleteByPath\<close> does the same, since it hands such a
  path to \<^verbatim>\<open>compareSimplePath\<close>.
\<close>

theorem compareSimplePath_single_string:
  assumes "\<not> includes_brackets path" and "getNestedValue oldObj path = JStr s"
  shows "compareSimplePath oldObj newObj path =
           (if getNestedValue newObj path = JStr s then [] else [JStr s])
         \<and> compareAndDeleteByPath oldObj newObj path = compareSimplePath oldObj newObj path"
proof -
  have t: "truthy oldObj"
    using assms(2) getNestedValue_defined_truthy [of oldObj path] by simp
  have a: "compareSimplePath oldObj newObj path =
           (if getNestedValue newObj path = JStr s then [] else [JStr s])"
    using assms(2) by (simp add: compareSimplePath_def strict_eq_JStr)
  have b: "compareAndDeleteByPath oldObj newObj path = compareSimplePath oldObj newObj path"
    using assms(1) t by (simp add: compareAndDeleteByPath.simps)
  show ?thesis using a b by simp
qed

theorem compareSimplePath_single_string_witness:
  "\<not> includes_brackets ''image''
   \<and> getNestedValue (JObj [(''image'', JStr ''A'')]) ''image'' = JStr ''A''
   \<and> compareAndDeleteByPath (JObj [(''image'', JStr ''A'')]) (JObj [(''image'', JStr ''B'')]) ''image''
       = [JStr ''A'']
   \<and> compareAndDeleteByPath (JObj [(''image'', JStr ''A'')]) (JObj [(''image'', JStr ''A'')]) ''image''
       = []
   \<and> compareAndDeleteByPath (JObj [(''image'', JStr ''A'')]) (JObj []) ''image''
       = [JStr ''A'']"
proof -
  have h1: "\<not> includes_brackets ''image''" by simp
  have h2: "getNestedValue (JObj [(''image'', JStr ''A'')]) ''image'' = JStr ''A''"
    by (simp add: getNestedValue_def nested_step_def)
  have n1: "getNestedValue (JObj [(''image'', JStr ''B'')]) ''image'' = JStr ''B''"
    by (simp add: getNestedValue_def nested_step_def)
  have n2: "getNestedValue (JObj []) ''image'' = JUndefined"
    by (simp add: getNestedValue_def nested_step_def)
  show ?thesis
    using h1 h2 n1 n2
      compareSimplePath_single_string [OF h1 h2, of "JObj [(''image'', JStr ''B'')]"]
      compareSimplePath_single_string [OF h1 h2, of "JObj [(''image'', JStr ''A'')]"]
      compareSimplePath_single_string [OF h1 h2, of "JObj []"]
    by simp
qed

text \<open>
  Claim C3, as amended. For a path whose old leaf is a sequence of strings, named either
  as \<open>p\<close> or as \<open>p[]\<close>, the comparison is positional: the old element at index \<open>i\<close>
  is marked exactly when it is a non-empty string and the new value has no equal element
  at index \<open>i\<close>; so every non-empty old element beyond the length of the new sequence is
  marked. An empty old string is never marked, which is where the claim as stated fails.
\<close>

theorem compare_sequence_positional:
  assumes "\<not> includes_brackets p" and "getNestedValue oldObj p = JArr (map JStr xs)"
  shows "compareAndDeleteByPath oldObj newObj p =
           map JStr (map (\<lambda>i. xs ! i)
             (filter (\<lambda>i. xs ! i \<noteq> [] \<and> opt_index (getNestedValue newObj p) i \<noteq> JStr (xs ! i))
                [0..<length xs]))
         \<and> (\<not> endsWith_dot p \<longrightarrow>
              compareAndDeleteByPath oldObj newObj (p @ ''[]'') =
                map JStr (map (\<lambda>i. xs ! i)
                  (filter (\<lambda>i. xs ! i \<noteq> [] \<and> opt_index (getNestedValue newObj p) i \<noteq> JStr (xs ! i))
                     [0..<length xs])))"
proof -
  have t: "truthy oldObj"
    using assms(2) getNestedValue_defined_truthy [of oldObj p] by simp
  have a: "compareAndDeleteByPath oldObj newObj p =
             compare_images_loop (map JStr xs) (getNestedValue newObj p) 0"
    using assms t by (simp add: compareAndDeleteByPath.simps compareSimplePath_def)
  have b: "compareAndDeleteByPath oldObj newObj (p @ ''[]'') =
             compare_images_loop (map JStr xs) (getNestedValue newObj p) 0"
    if "\<not> endsWith_dot p"
    using assms t that includes_brackets_append [of p "[]"]
      arrayPath_of_plain_brackets [of p "[]"] remainingPath_of_end [of p]
    by (simp add: compareAndDeleteByPath.simps compareArrayPath.simps)
  show ?thesis
    using a b by (simp add: strings_loop)
qed

theorem compare_sequence_positional_witness:
  "\<not> includes_brackets ''images''
   \<and> getNestedValue (JObj [(''images'', JArr [JStr ''A'', JStr ''B'', JStr ''C''])]) ''images''
       = JArr (map JStr [''A'', ''B'', ''C''])
   \<and> \<not> endsWith_dot ''images''
   \<and> compareAndDeleteByPath (JObj [(''images'', JArr [JStr ''A'', JStr ''B'', JStr ''C''])])
        (JObj [(''images'', JArr [JStr ''A'', JStr ''X''])]) ''images''
       = [JStr ''B'', JStr ''C'']
   \<and> compareAndDeleteByPath (JObj [(''images'', JArr [JStr ''A'', JStr ''B'', JStr ''C''])])
        (JObj [(''images'', JArr [JStr ''A'', JStr ''X''])]) ''images[]''
       = [JStr ''B'', JStr ''C'']"
proof -
  have h1: "\<not> includes_brackets ''images''" by simp
  have h2: "getNestedValue (JObj [(''images'', JArr [JStr ''A'', JStr ''B'', JStr ''C''])]) ''images''
              = JArr (map JStr [''A'', ''B'', ''C''])"
    by (simp add: getNestedValue_def nested_step_def)
  have h3: "\<not> endsWith_dot ''images''" by (simp add: endsWith_dot_def)
  have n: "getNestedValue (JObj [(''images'', JArr [JStr ''A'', JStr ''X''])]) ''images''
              = JArr [JStr ''A'', JStr ''X'']"
    by (simp add: getNestedValue_def nested_step_def)
  have up: "[0..<length [''A'', ''B'', ''C'']] = [0, 1, 2]"
    by (simp add: upt_rec)
  show ?thesis
    using h1 h2 h3
      compare_sequence_positional [OF h1 h2, of "JObj [(''images'', JArr [JStr ''A'', JStr ''X''])]"]
    unfolding n up by simp
qed

text \<open>
  The claim as stated fails on an empty old string: the old sequence \<^verbatim>\<open>["", "B"]\<close>
  against the new sequence \<^verbatim>\<open>["X"]\<close>. The old element at index 0 exists and differs
  from the new element at index 0, and is not marked.
\<close>

theorem compare_sequence_counterexample:
  "getNestedValue (JObj [(''images'', JArr [JStr [], JStr ''B''])]) ''images''
     = JArr [JStr [], JStr ''B'']
   \<and> getNestedValue (JObj [(''images'', JArr [JStr ''X''])]) ''images'' = JArr [JStr ''X'']
   \<and> compareAndDeleteByPath (JObj [(''images'', JArr [JStr [], JStr ''B''])])
        (JObj [(''images'', JArr [JStr ''X''])]) ''images'' = [JStr ''B'']
   \<and> compareAndDeleteByPath (JObj [(''images'', JArr [JStr [], JStr ''B''])])
        (JObj [(''images'', JArr [JStr ''X''])]) ''images[]'' = [JStr ''B'']"
  by (simp add: compareAndDeleteByPath.simps compareArrayPath.simps compareSimplePath_def
      getNestedValue_def nested_step_def arrayPath_of_def remainingPath_of_def endsWith_dot_def)

section \<open>Differential cleanup: nested arrays and falsy leaves\<close>

lemma split_char_nonempty: "split_char c s \<noteq> []"
  by (induction s) (auto split: list.splits)

lemma foldl_nested_step_undefined: "foldl nested_step JUndefined ks = JUndefined"
  by (induction ks) (simp_all add: nested_step_def)

lemma getNestedValue_non_object:
  "\<not> typeof_object v \<Longrightarrow> getNestedValue v path = JUndefined"
proof (cases "split_char CHR ''.'' path")
  case Nil
  then show ?thesis using split_char_nonempty by blast
next
  case (Cons k ks)
  assume "\<not> typeof_object v"
  then have "nested_step v k = JUndefined"
    by (simp add: nested_step_def)
  then show ?thesis
    using Cons by (simp add: getNestedValue_def foldl_nested_step_undefined)
qed

lemma compareAndDeleteByPath_non_object:
  assumes "\<not> includes_brackets r" and "\<not> (truthy v \<and> typeof_object v)"
  shows "compareAndDeleteByPath v n r = []"
proof (cases "truthy v")
  case False
  then show ?thesis by (simp add: compareAndDeleteByPath.simps)
next
  case True
  with assms(2) have "getNestedValue v r = JUndefined"
    by (simp add: getNestedValue_non_object)
  then show ?thesis
    using assms(1) True by (simp add: compareAndDeleteByPath.simps compareSimplePath_def)
qed

lemma compare_items_loop_concat:
  "compare_items_loop xs newArray rem i =
     concat (map (\<lambda>j. if truthy (xs ! j) \<and> typeof_object (xs ! j)
                       then compareAndDeleteByPath (xs ! j) (opt_index newArray (i + j)) rem
                       else [])
              [0..<length xs])"
proof (induction xs arbitrary: i)
  case Nil
  then show ?case by simp
next
  case (Cons x xs)
  have up: "[0..<length (x # xs)] = 0 # map Suc [0..<length xs]"
    by (simp add: upt_conv_Cons map_Suc_upt del: upt_Suc)
  show ?case
    unfolding up by (simp add: Cons.IH comp_def Let_def cong: if_cong)
qed

lemma compareArrayPath_single_bracket:
  assumes "\<not> includes_brackets ap" and "\<not> endsWith_dot ap"
    and "\<not> includes_brackets r" and "r \<noteq> []"
    and "getNestedValue oldObj ap = JArr xs"
  shows "compareAndDeleteByPath oldObj newObj (ap @ ''[].'' @ r) =
           concat (map (\<lambda>i. compareAndDeleteByPath (xs ! i)
                              (opt_index (getNestedValue newObj ap) i) r)
                    [0..<length xs])"
proof -
  have t: "truthy oldObj"
    using assms(5) getNestedValue_defined_truthy [of oldObj ap] by simp
  have inc: "includes_brackets (ap @ ''[].'' @ r)"
    using includes_brackets_append [of ap "CHR ''.'' # r"] by simp
  have ap: "arrayPath_of (ap @ ''[].'' @ r) = ap"
    using arrayPath_of_plain_brackets [OF assms(1) assms(2), of "CHR ''.'' # r"] by simp
  have rp: "remainingPath_of (ap @ ''[].'' @ r) = r"
    using remainingPath_of_single [OF assms(1) assms(3)] .
  have "compareAndDeleteByPath oldObj newObj (ap @ ''[].'' @ r) =
          compareArrayPath oldObj newObj (ap @ ''[].'' @ r)"
    using t inc by (simp add: compareAndDeleteByPath.simps [of oldObj newObj])
  also have "\<dots> = compare_items_loop xs (getNestedValue newObj ap) r 0"
    unfolding compareArrayPath.simps ap rp Let_def
    using assms(4) assms(5) by simp
  also have "\<dots> = concat (map (\<lambda>i. compareAndDeleteByPath (xs ! i)
                              (opt_index (getNestedValue newObj ap) i) r)
                    [0..<length xs])"
    unfolding compare_items_loop_concat
    by (rule arg_cong [where f = concat], rule map_cong)
       (auto simp: compareAndDeleteByPath_non_object [OF assms(3)])
  finally show ?thesis .
qed

lemma compare_items_loop_skip:
  assumes "i < length xs" and "\<not> (truthy (xs ! i) \<and> typeof_object (xs ! i))"
  shows "compare_items_loop xs newArray rem k =
           compare_items_loop (take i xs) newArray rem k
           @ compare_items_loop (drop (Suc i) xs) newArray rem (k + Suc i)"
proof -
  have "xs = take i xs @ (xs ! i # drop (Suc i) xs)"
    using assms(1) by (simp add: id_take_nth_drop)
  then have "compare_items_loop xs newArray rem k =
               compare_items_loop (take i xs @ (xs ! i # drop (Suc i) xs)) newArray rem k"
    by simp
  also have "\<dots> = compare_items_loop (take i xs) newArray rem k
           @ compare_items_loop (drop (Suc i) xs) newArray rem (k + Suc i)"
    using assms by (auto simp: compare_items_loop_append Let_def min_def)
  finally show ?thesis .
qed

lemma deleteImage_falsy: "\<not> truthy v \<Longrightarrow> deleteImage remote v w = (Inr (), w)"
  by (simp add: deleteImage_def)

text \<open>
  Claim C10. Differential cleanup requests no deletion for a falsy old leaf. Every value
  marked from a sequence leaf, in \<^verbatim>\<open>compareSimplePath\<close> and in the direct-array
  branch of \<^verbatim>\<open>compareArrayPath\<close>, is truthy, so an empty old string is not marked
  whatever the new document holds. In the nested branch an old element that is not an
  object contributes nothing: the result is that of the elements before it followed by
  that of the elements after it. A falsy value handed to \<^verbatim>\<open>deleteImage\<close> (an empty
  single-string leaf) leaves the world as it was.
\<close>

theorem falsy_old_leaves_not_deleted:
  "(getNestedValue oldObj path = JArr xs \<longrightarrow>
      (\<forall>v \<in> set (compareSimplePath oldObj newObj path). truthy v \<and> v \<in> set xs))
   \<and> (remainingPath_of path = [] \<longrightarrow>
      (\<forall>v \<in> set (compareArrayPath oldObj newObj path). truthy v))
   \<and> (getNestedValue oldObj (arrayPath_of path) = JArr xs \<and> remainingPath_of path \<noteq> []
        \<and> i < length xs \<and> \<not> (truthy (xs ! i) \<and> typeof_object (xs ! i)) \<longrightarrow>
      compareArrayPath oldObj newObj path =
        compare_items_loop (take i xs) (getNestedValue newObj (arrayPath_of path))
          (remainingPath_of path) 0
        @ compare_items_loop (drop (Suc i) xs) (getNestedValue newObj (arrayPath_of path))
            (remainingPath_of path) (Suc i))
   \<and> (\<not> truthy v \<longrightarrow> deleteImage remote v w = (Inr (), w))"
proof -
  have a: "\<forall>v \<in> set (compareSimplePath oldObj newObj path). truthy v \<and> v \<in> set xs"
    if "getNestedValue oldObj path = JArr xs"
    using that compare_images_loop_truthy [of _ xs "getNestedValue newObj path" 0]
    by (simp add: compareSimplePath_def)
  have b: "\<forall>v \<in> set (compareArrayPath oldObj newObj path). truthy v"
    if "remainingPath_of path = []"
    using that compare_images_loop_truthy
    by (auto simp: compareArrayPath.simps Let_def split: json.splits)
  have c: "compareArrayPath oldObj newObj path =
        compare_items_loop (take i xs) (getNestedValue newObj (arrayPath_of path))
          (remainingPath_of path) 0
        @ compare_items_loop (drop (Suc i) xs) (getNestedValue newObj (arrayPath_of path))
            (remainingPath_of path) (Suc i)"
    if "getNestedValue oldObj (arrayPath_of path) = JArr xs" and "remainingPath_of path \<noteq> []"
      and "i < length xs" and "\<not> (truthy (xs ! i) \<and> typeof_object (xs ! i))"
    using that compare_items_loop_skip [of i xs _ _ 0]
    by (simp add: compareArrayPath.simps Let_def)
  show ?thesis
    using a b c deleteImage_falsy by blast
qed


theorem falsy_old_leaves_not_deleted_witness:
  "getNestedValue (JObj [(''images'', JArr [JStr [], JStr ''B''])]) ''images''
     = JArr [JStr [], JStr ''B'']
   \<and> compareSimplePath (JObj [(''images'', JArr [JStr [], JStr ''B''])])
        (JObj [(''images'', JArr [JStr ''X''])]) ''images'' = [JStr ''B'']
   \<and> remainingPath_of ''images[]'' = []
   \<and> compareArrayPath (JObj [(''images'', JArr [JStr [], JStr ''B''])])
        (JObj [(''images'', JArr [JStr ''X''])]) ''images[]'' = [JStr ''B'']
   \<and> getNestedValue (JObj [(''points'', JArr [JStr ''x'', JObj [(''image'', JStr ''B'')]])])
        (arrayPath_of ''points[].image'')
       = JArr [JStr ''x'', JObj [(''image'', JStr ''B'')]]
   \<and> remainingPath_of ''points[].image'' = ''image''
   \<and> \<not> typeof_object (JStr ''x'')
   \<and> compareArrayPath (JObj [(''points'', JArr [JStr ''x'', JObj [(''image'', JStr ''B'')]])])
        (JObj [(''points'', JArr [JStr ''y'', JObj [(''image'', JStr ''C'')]])]) ''points[].image''
       = [JStr ''B'']
   \<and> \<not> truthy (JStr [])
   \<and> deleteImage (\<lambda>h i. Inr (JObj [(''result'', JStr ''ok'')])) (JStr [])
        \<lparr>destroy_calls = [], console = []\<rparr>
       = (Inr (), \<lparr>destroy_calls = [], console = []\<rparr>)"
proof -
  have h1: "getNestedValue (JObj [(''images'', JArr [JStr [], JStr ''B''])]) ''images''
              = JArr [JStr [], JStr ''B'']"
    by (simp add: getNestedValue_def nested_step_def)
  have h2: "remainingPath_of ''images[]'' = []"
    by (simp add: remainingPath_of_def)
  have h3: "getNestedValue (JObj [(''points'', JArr [JStr ''x'', JObj [(''image'', JStr ''B'')]])])
              (arrayPath_of ''points[].image'')
            = JArr [JStr ''x'', JObj [(''image'', JStr ''B'')]]"
    by (simp add: getNestedValue_def nested_step_def arrayPath_of_def endsWith_dot_def)
  have h4: "remainingPath_of ''points[].image'' = ''image''"
    by (simp add: remainingPath_of_def)
  have e1: "compareSimplePath (JObj [(''images'', JArr [JStr [], JStr ''B''])])
        (JObj [(''images'', JArr [JStr ''X''])]) ''images'' = [JStr ''B'']"
    by (simp add: compareSimplePath_def getNestedValue_def nested_step_def)
  have e2: "compareArrayPath (JObj [(''images'', JArr [JStr [], JStr ''B''])])
        (JObj [(''images'', JArr [JStr ''X''])]) ''images[]'' = [JStr ''B'']"
    by (simp add: compareArrayPath.simps arrayPath_of_def remainingPath_of_def
        getNestedValue_def nested_step_def endsWith_dot_def)
  have e3: "compareArrayPath (JObj [(''points'', JArr [JStr ''x'', JObj [(''image'', JStr ''B'')]])])
        (JObj [(''points'', JArr [JStr ''y'', JObj [(''image'', JStr ''C'')]])]) ''points[].image''
       = [JStr ''B'']"
    by (simp add: compareArrayPath.simps compareAndDeleteByPath.simps compareSimplePath_def
        arrayPath_of_def remainingPath_of_def getNestedValue_def nested_step_def endsWith_dot_def)
  note inst1 = falsy_old_leaves_not_deleted
        [where oldObj = "JObj [(''images'', JArr [JStr [], JStr ''B''])]"
           and newObj = "JObj [(''images'', JArr [JStr ''X''])]"
           and path = "''images''" and xs = "[JStr [], JStr ''B'']" and i = 0
           and v = "JStr []" and w = "\<lparr>destroy_calls = [], console = []\<rparr>"
           and remote = "\<lambda>h i. Inr (JObj [(''result'', JStr ''ok'')])"]
  note inst2 = falsy_old_leaves_not_deleted
        [where oldObj = "JObj [(''images'', JArr [JStr [], JStr ''B''])]"
           and newObj = "JObj [(''images'', JArr [JStr ''X''])]"
           and path = "''images[]''" and xs = "[JStr [], JStr ''B'']" and i = 0
           and v = "JStr []" and w = "\<lparr>destroy_calls = [], console = []\<rparr>"
           and remote = "\<lambda>h i. Inr (JObj [(''result'', JStr ''ok'')])"]
  note inst3 = falsy_old_leaves_not_deleted
        [where oldObj = "JObj [(''points'', JArr [JStr ''x'', JObj [(''image'', JStr ''B'')]])]"
           and newObj = "JObj [(''points'', JArr [JStr ''y'', JObj [(''image'', JStr ''C'')]])]"
           and path = "''points[].image''"
           and xs = "[JStr ''x'', JObj [(''image'', JStr ''B'')]]" and i = 0
           and v = "JStr []" and w = "\<lparr>destroy_calls = [], console = []\<rparr>"
           and remote = "\<lambda>h i. Inr (JObj [(''result'', JStr ''ok'')])"]
  have g: "deleteImage (\<lambda>h i. Inr (JObj [(''result'', JStr ''ok'')])) (JStr [])
        \<lparr>destroy_calls = [], console = []\<rparr>
       = (Inr (), \<lparr>destroy_calls = [], console = []\<rparr>)"
    using inst1 inst2 inst3 by (simp only: truthy.simps simp_thms)
  show ?thesis
    using h1 h2 h3 h4 e1 e2 e3 g by simp
qed


section \<open>When the gateway and the cleanup operations return normally\<close>









section \<open>The asset identifier\<close>

lemma hd_split_char: "hd (split_char c s) = takeWhile (\<lambda>x. x \<noteq> c) s"
  by (induction s) (auto split: list.splits simp: split_char_nonempty)

lemma split_char_no_sep: "c \<notin> set s \<Longrightarrow> split_char c s = [s]"
  by (induction s) auto

lemma split_char_sep_length: "c \<in> set s \<Longrightarrow> 2 \<le> length (split_char c s)"
proof (induction s)
  case Nil
  then show ?case by simp
next
  case (Cons x xs)
  show ?case
  proof (cases "x = c")
    case True
    then show ?thesis
      using split_char_nonempty [of c xs] by (cases "split_char c xs") auto
  next
    case False
    with Cons show ?thesis
      by (cases "split_char c xs") auto
  qed
qed

lemma last_split_char:
  "last (split_char c s) = rev (takeWhile (\<lambda>x. x \<noteq> c) (rev s))"
proof (induction s)
  case Nil
  then show ?case by simp
next
  case (Cons x xs)
  show ?case
  proof (cases "x = c")
    case True
    then show ?thesis
      using Cons split_char_nonempty [of c xs]
      by (simp add: takeWhile_append)
  next
    case False
    show ?thesis
    proof (cases "c \<in> set xs")
      case True
      then obtain p q ps where sp: "split_char c xs = p # q # ps"
        using split_char_sep_length [of c xs]
        by (cases "split_char c xs"; cases "tl (split_char c xs)") auto
      have "\<not> (\<forall>y \<in> set (rev xs). y \<noteq> c)"
        using True by auto
      then have "takeWhile (\<lambda>x. x \<noteq> c) (rev xs @ [x]) = takeWhile (\<lambda>x. x \<noteq> c) (rev xs)"
        by (auto simp: takeWhile_append)
      then show ?thesis
        using False sp Cons by simp
    next
      case nin: False
      have tw: "takeWhile (\<lambda>x. x \<noteq> c) (rev (x # xs)) = rev (x # xs)"
        using False nin by (auto simp: takeWhile_eq_all_conv)
      have "last (split_char c (x # xs)) = x # xs"
        using False nin by (simp add: split_char_no_sep)
      then show ?thesis
        unfolding tw by simp
    qed
  qed
qed

lemma deleteImage_try_calls:
  "destroy_calls (snd (deleteImage_try remote publicId w)) = destroy_calls w @ [publicId]"
  by (simp add: deleteImage_try_def emit_def Let_def split: sum.splits)

lemma destroy_calls_emit: "destroy_calls (emit l w) = destroy_calls w"
  by (simp add: emit_def)

text \<open>
  Claim C7, as amended. For a string reference the gateway takes as asset identifier the
  part after the last \<^verbatim>\<open>/\<close>, cut at its first dot, and attempts the remote
  deletion with it whenever it is not empty, wherever the reference comes from. A
  reference that is not a string (\<^verbatim>\<open>null\<close> included), an empty one, and one whose
  identifier is empty cause no attempt.
\<close>

theorem deleteImage_asset_id:
  "extractPublicId_try (JStr s)
     = Inr (takeWhile (\<lambda>c. c \<noteq> CHR ''.'') (rev (takeWhile (\<lambda>c. c \<noteq> CHR ''/'') (rev s))))
   \<and> destroy_calls (snd (deleteImage remote v w))
       = (case v of
            JStr u \<Rightarrow>
              (if takeWhile (\<lambda>c. c \<noteq> CHR ''.'') (rev (takeWhile (\<lambda>c. c \<noteq> CHR ''/'') (rev u))) = []
               then destroy_calls w
               else destroy_calls w
                    @ [takeWhile (\<lambda>c. c \<noteq> CHR ''.'')
                         (rev (takeWhile (\<lambda>c. c \<noteq> CHR ''/'') (rev u)))])
          | _ \<Rightarrow> destroy_calls w)"
proof -
  have a: "extractPublicId_try (JStr u)
     = Inr (takeWhile (\<lambda>c. c \<noteq> CHR ''.'') (rev (takeWhile (\<lambda>c. c \<noteq> CHR ''/'') (rev u))))"
    for u
    by (simp add: extractPublicId_try_def Let_def hd_split_char last_split_char)
  have b: "destroy_calls (snd (deleteImage remote (JStr u) w))
       = (if takeWhile (\<lambda>c. c \<noteq> CHR ''.'') (rev (takeWhile (\<lambda>c. c \<noteq> CHR ''/'') (rev u))) = []
          then destroy_calls w
          else destroy_calls w
               @ [takeWhile (\<lambda>c. c \<noteq> CHR ''.'') (rev (takeWhile (\<lambda>c. c \<noteq> CHR ''/'') (rev u)))])"
    for u
  proof (cases "u = []")
    case True
    then show ?thesis by (simp add: deleteImage_def)
  next
    case False
    let ?pid = "takeWhile (\<lambda>c. c \<noteq> CHR ''.'') (rev (takeWhile (\<lambda>c. c \<noteq> CHR ''/'') (rev u)))"
    obtain r w2 where t: "deleteImage_try remote ?pid w = (r, w2)"
      by (cases "deleteImage_try remote ?pid w")
    then have "destroy_calls w2 = destroy_calls w @ [?pid]"
      using deleteImage_try_calls [of remote ?pid w] by simp
    then show ?thesis
      using False a [of u] t
      by (cases r)
         (simp_all add: deleteImage_def extractPublicId_def emit_def split: exn.splits)
  qed
  have c: "destroy_calls (snd (deleteImage remote v w)) = destroy_calls w"
    if "\<not> typeof_string v"
    using that
    by (cases v)
       (simp_all add: deleteImage_def extractPublicId_def extractPublicId_try_def emit_def)
  show ?thesis
    using a [of s] b c by (cases v) simp_all
qed

text \<open>
  The claim as stated fails on a reference that this system never uploaded: the gateway
  does not skip it, it asks the remote service to destroy \<^verbatim>\<open>cat\<close>.
\<close>

theorem deleteImage_foreign_reference_counterexample:
  "destroy_calls (snd (deleteImage (\<lambda>h i. Inr (JObj [(''result'', JStr ''not found'')]))
      (JStr ''https://example.com/pictures/cat.png'')
      \<lparr>destroy_calls = [], console = []\<rparr>)) = [''cat'']"
  by (simp add: deleteImage_def extractPublicId_def extractPublicId_try_def deleteImage_try_def
      result_field_def emit_def Let_def)


section \<open>Unregistered record types\<close>

text \<open>
  Claim C5, as amended. For a record-type name that is neither a key of the registry nor
  the name of a member inherited from \<^verbatim>\<open>Object.prototype\<close> the path list is
  empty: \<^verbatim>\<open>deleteImagesByConfig\<close> and both middlewares return normally (the
  middlewares hand the request on when the record exists) and request no deletion.
\<close>

theorem unregistered_type_noop:
  assumes "map_of imageConfig modelName = None"
    and "modelName \<notin> set object_prototype_keys"
  shows "config_paths modelName = Some []
         \<and> deleteImagesByConfig remote stored modelName w
             = (Inr (), if truthy stored
                        then emit (ConsoleLog ''Starting image cleanup with paths'') w else w)
         \<and> destroy_calls (snd (deleteImagesByConfig remote stored modelName w)) = destroy_calls w
         \<and> fst (cleanupImages remote (Inr stored) modelName w)
             = (if truthy stored then Next else Status 404)
         \<and> destroy_calls (snd (cleanupImages remote (Inr stored) modelName w)) = destroy_calls w
         \<and> fst (cleanupOldImages remote (Inr stored) modelName body w)
             = (if truthy stored then Next else Status 404)
         \<and> destroy_calls (snd (cleanupOldImages remote (Inr stored) modelName body w))
             = destroy_calls w"
proof -
  have p: "config_paths modelName = Some []"
    using assms by (simp add: config_paths_def literal_get_def)
  have a: "deleteImagesByConfig remote stored modelName w
             = (Inr (), if truthy stored
                        then emit (ConsoleLog ''Starting image cleanup with paths'') w else w)"
    for w
    by (simp add: deleteImagesByConfig_def p)
  show ?thesis
    by (simp add: p a cleanupImages_def cleanupOldImages_def destroy_calls_emit)
qed

theorem unregistered_type_noop_witness:
  "map_of imageConfig ''ExpertiseIndustries'' = None
   \<and> ''ExpertiseIndustries'' \<notin> set object_prototype_keys
   \<and> config_paths ''ExpertiseIndustries'' = Some []
   \<and> fst (cleanupImages (\<lambda>h i. Inl (RemoteFailure ''network''))
            (Inr (JObj [(''image'', JStr ''https://cdn.example/a.png'')]))
            ''ExpertiseIndustries'' \<lparr>destroy_calls = [], console = []\<rparr>) = Next
   \<and> destroy_calls (snd (cleanupImages (\<lambda>h i. Inl (RemoteFailure ''network''))
            (Inr (JObj [(''image'', JStr ''https://cdn.example/a.png'')]))
            ''ExpertiseIndustries'' \<lparr>destroy_calls = [], console = []\<rparr>)) = []
   \<and> fst (cleanupOldImages (\<lambda>h i. Inl (RemoteFailure ''network''))
            (Inr (JObj [(''image'', JStr ''https://cdn.example/a.png'')]))
            ''ExpertiseIndustries'' (JObj [(''image'', JStr ''https://cdn.example/b.png'')])
            \<lparr>destroy_calls = [], console = []\<rparr>) = Next
   \<and> destroy_calls (snd (cleanupOldImages (\<lambda>h i. Inl (RemoteFailure ''network''))
            (Inr (JObj [(''image'', JStr ''https://cdn.example/a.png'')]))
            ''ExpertiseIndustries'' (JObj [(''image'', JStr ''https://cdn.example/b.png'')])
            \<lparr>destroy_calls = [], console = []\<rparr>)) = []"
proof -
  have h1: "map_of imageConfig ''ExpertiseIndustries'' = None"
    by (simp add: imageConfig_def)
  have h2: "''ExpertiseIndustries'' \<notin> set object_prototype_keys"
    by (simp add: object_prototype_keys_def)
  show ?thesis
    using h1 h2 unregistered_type_noop [OF h1 h2,
        of "\<lambda>h i. Inl (RemoteFailure ''network'')"
           "JObj [(''image'', JStr ''https://cdn.example/a.png'')]"
           "\<lparr>destroy_calls = [], console = []\<rparr>"
           "JObj [(''image'', JStr ''https://cdn.example/b.png'')]"]
    by simp
qed

text \<open>
  The claim as stated fails on a name that is not a key of the registry and that the
  registry object inherits: \<^verbatim>\<open>imageConfig['constructor']\<close> is a function, the
  loop over it throws a TypeError, \<^verbatim>\<open>deleteImagesByConfig\<close> throws and both
  middlewares answer 500.
\<close>

theorem unregistered_type_counterexample:
  "map_of imageConfig ''constructor'' = None
   \<and> fst (deleteImagesByConfig (\<lambda>h i. Inr (JObj [(''result'', JStr ''ok'')]))
            (JObj [(''image'', JStr ''https://cdn.example/a.png'')])
            ''constructor'' \<lparr>destroy_calls = [], console = []\<rparr>) = Inl TypeError
   \<and> fst (cleanupImages (\<lambda>h i. Inr (JObj [(''result'', JStr ''ok'')]))
            (Inr (JObj [(''image'', JStr ''https://cdn.example/a.png'')]))
            ''constructor'' \<lparr>destroy_calls = [], console = []\<rparr>) = Status 500
   \<and> fst (cleanupOldImages (\<lambda>h i. Inr (JObj [(''result'', JStr ''ok'')]))
            (Inr (JObj [(''image'', JStr ''https://cdn.example/a.png'')]))
            ''constructor'' (JObj [(''image'', JStr ''https://cdn.example/b.png'')])
            \<lparr>destroy_calls = [], console = []\<rparr>) = Status 500"
  by (simp add: imageConfig_def config_paths_def literal_get_def object_prototype_keys_def
      deleteImagesByConfig_def cleanupImages_def cleanupOldImages_def Let_def)

section \<open>Paths with two array segments\<close>

text \<open>
  Claim C4. For a path with one \<^verbatim>\<open>[]\<close> followed by a sub-path the comparison
  recurses the sub-path on each pair of old and new elements
  (\<open>compareArrayPath_single_bracket\<close>). For a path with two array segments it does not:
  \<^verbatim>\<open>path.split('[]')\<close> has three pieces and only the second is kept, so the
  remaining path of \<^verbatim>\<open>services[].serviceItemBox[].image\<close> is
  \<^verbatim>\<open>serviceItemBox\<close>. On the input below the old image \<^verbatim>\<open>A\<close> was replaced by
  \<^verbatim>\<open>B\<close>; the value handed to \<^verbatim>\<open>deleteImage\<close> is the old object, not
  \<^verbatim>\<open>A\<close>, and the middleware, on the registered path of
  \<^verbatim>\<open>HireMainPageData\<close>, requests no deletion.
\<close>

theorem nested_double_bracket_evaluation:
  "compareAndDeleteByPath
     (JObj [(''services'', JArr [JObj [(''serviceItemBox'', JArr [JObj [(''image'', JStr ''A'')]])]])])
     (JObj [(''services'', JArr [JObj [(''serviceItemBox'', JArr [JObj [(''image'', JStr ''B'')]])]])])
     ''services[].serviceItemBox[].image''
     = [JObj [(''image'', JStr ''A'')]]
   \<and> destroy_calls (snd (cleanupOldImages (\<lambda>h i. Inr (JObj [(''result'', JStr ''ok'')]))
       (Inr (JObj [(''dedicatedDeveloperSection'', JObj [(''services'',
          JArr [JObj [(''serviceItemBox'', JArr [JObj [(''image'', JStr ''A'')]])]])])]))
       ''HireMainPageData''
       (JObj [(''dedicatedDeveloperSection'', JObj [(''services'',
          JArr [JObj [(''serviceItemBox'', JArr [JObj [(''image'', JStr ''B'')]])]])])])
       \<lparr>destroy_calls = [], console = []\<rparr>)) = []"
  by (simp add: compareAndDeleteByPath.simps compareArrayPath.simps compareSimplePath_def
      getNestedValue_def nested_step_def arrayPath_of_def remainingPath_of_def endsWith_dot_def
      cleanupOldImages_def config_paths_def literal_get_def imageConfig_def deleteImage_def
      extractPublicId_def extractPublicId_try_def emit_def Let_def)

section \<open>Synchronizer: evaluation on examples\<close>

lemmas sync_eval =
  syncSeoData_def syncSeoData_try_def catch_rethrow_def sync_lookup_def seo_findOne_def
  seo_save_def valid_seo_def required_string_def js_or_def link_field_of_def literal_get_def
  linkFieldMap_def object_prototype_keys_def sent_def logged_def
  safeDeleteSeoData_def safeDeleteSeoData_try_def
  seo_findOneAndDelete_def forceDeleteSeoData_def forceDeleteSeoData_try_def Let_def

section \<open>Synchronizer: the invariant of a metadata record\<close>

text \<open>
  Claim C1. The synchronizer is to keep, on every stored record, that
  \<^verbatim>\<open>isAutoManaged\<close> holds exactly when exactly one of the two link fields is set.
  \<^verbatim>\<open>syncSeoData\<close> does not: it writes the link field of its type and never
  resets the other one. On the input below a record linked to a hire page, which satisfies
  the invariant, is found by its slug when a service with the same slug is synchronized; the
  stored record then is auto-managed with both link fields set.
\<close>

theorem cross_type_claim_evaluation:
  "seo_invariant (managed_doc 1 ''react'' ''hire'' None (Some 5))
   \<and> fst (syncSeoData (Some ''React'') ''react'' None ''service'' (Some 9)
            (db_with [managed_doc 1 ''react'' ''hire'' None (Some 5)]))
       = Inr ((managed_doc 1 ''react'' ''service'' (Some 9) (Some 5))\<lparr>title := Some ''React''\<rparr>)
   \<and> seo_docs (snd (syncSeoData (Some ''React'') ''react'' None ''service'' (Some 9)
            (db_with [managed_doc 1 ''react'' ''hire'' None (Some 5)])))
       = [(managed_doc 1 ''react'' ''service'' (Some 9) (Some 5))\<lparr>title := Some ''React''\<rparr>]
   \<and> isAutoManaged ((managed_doc 1 ''react'' ''service'' (Some 9) (Some 5))\<lparr>title := Some ''React''\<rparr>)
   \<and> \<not> one_link ((managed_doc 1 ''react'' ''service'' (Some 9) (Some 5))\<lparr>title := Some ''React''\<rparr>)
   \<and> \<not> seo_invariant ((managed_doc 1 ''react'' ''service'' (Some 9) (Some 5))\<lparr>title := Some ''React''\<rparr>)"
  by (simp add: sync_eval seo_invariant_def managed_iff_typed_def one_link_def)

section \<open>Synchronizer: claiming an independent record\<close>

lemma find_unique:
  "y \<in> set xs \<Longrightarrow> P y \<Longrightarrow> (\<forall>x \<in> set xs. P x \<longrightarrow> x = y) \<Longrightarrow> find P xs = Some y"
proof (induction xs)
  case Nil
  then show ?case by simp
next
  case (Cons a xs)
  show ?case
  proof (cases "P a")
    case True
    then have "a = y" using Cons.prems(3) by (meson list.set_intros(1))
    then show ?thesis using True by simp
  next
    case False
    then have "y \<in> set xs" using Cons.prems(1) Cons.prems(2) by auto
    moreover have "\<forall>x \<in> set xs. P x \<longrightarrow> x = y"
      using Cons.prems(3) by (meson list.set_intros(2))
    ultimately have "find P xs = Some y"
      using Cons.IH Cons.prems(2) by blast
    then show ?thesis using False by simp
  qed
qed

text \<open>
  Claim C8, as amended. Let the database answer and hold, under unique slugs, an
  Independent record with the given non-empty slug, and let no stored record be linked
  to the given service id. Then \<^verbatim>\<open>syncSeoData\<close> with that slug, a non-empty title,
  type \<^verbatim>\<open>service\<close> and the id stores the record as auto-managed, with
  \<^verbatim>\<open>linkedService\<close> the id and link type \<^verbatim>\<open>service\<close>, and a following
  \<^verbatim>\<open>safeDeleteSeoData\<close> on the slug returns the blocked result and deletes nothing.
\<close>

theorem claim_independent_then_blocked:
  assumes av: "available d"
    and found: "find (\<lambda>x. slug x = s) (seo_docs d) = Some r"
    and indep: "\<not> isAutoManaged r" "linkedType r = ''independent''"
    and unlinked: "\<forall>x \<in> set (seo_docs d). linkedService x \<noteq> Some i"
    and ttl: "js_or subCat titleArg = Some t" "t \<noteq> []"
    and s: "s \<noteq> []"
    and uniq: "distinct (map slug (seo_docs d))"
  shows "fst (syncSeoData subCat s titleArg ''service'' (Some i) d)
           = Inr (r\<lparr>title := Some t, slug := s, seo_title := Some t, linkedService := Some i,
                    linkedType := ''service'', isAutoManaged := True\<rparr>)
         \<and> seo_docs (snd (syncSeoData subCat s titleArg ''service'' (Some i) d))
           = map (\<lambda>x. if seo_id x = seo_id r
                       then r\<lparr>title := Some t, slug := s, seo_title := Some t,
                              linkedService := Some i, linkedType := ''service'',
                              isAutoManaged := True\<rparr>
                       else x) (seo_docs d)
         \<and> r\<lparr>title := Some t, slug := s, seo_title := Some t, linkedService := Some i,
              linkedType := ''service'', isAutoManaged := True\<rparr>
             \<in> set (seo_docs (snd (syncSeoData subCat s titleArg ''service'' (Some i) d)))
         \<and> fst (safeDeleteSeoData s (snd (syncSeoData subCat s titleArg ''service'' (Some i) d)))
           = Inr False
         \<and> seo_docs (snd (safeDeleteSeoData s
               (snd (syncSeoData subCat s titleArg ''service'' (Some i) d))))
           = seo_docs (snd (syncSeoData subCat s titleArg ''service'' (Some i) d))"
proof -
  let ?r' = "r\<lparr>title := Some t, slug := s, seo_title := Some t, linkedService := Some i,
               linkedType := ''service'', isAutoManaged := True\<rparr>"
  let ?docs' = "map (\<lambda>x. if seo_id x = seo_id r then ?r' else x) (seo_docs d)"
  let ?d1 = "sent OpFindOne (sent OpFindOne d)"
  let ?d2 = "logged (ConsoleLog ''Converting independent SEO to auto-managed'') ?d1"
  have rin: "r \<in> set (seo_docs d)" and rs: "slug r = s"
    using found by (auto simp: find_Some_iff)
  have inj: "inj_on slug (set (seo_docs d))"
    using uniq by (simp add: distinct_map)
  have only: "x = r" if "x \<in> set (seo_docs d)" and "slug x = s" for x
    using inj_onD [OF inj, of x r] that rin rs by simp
  have nolink: "find (\<lambda>x. get_link LinkedService x = Some i) (seo_docs d) = None"
    using unlinked by (simp add: find_None_iff)
  have look: "sync_lookup LinkedService (Some i) s d = (Inr (Some r), ?d1)"
    using av nolink found by (simp add: sync_lookup_def seo_findOne_def sent_def)
  have valid: "valid_seo ?r'"
    using ttl s by (simp add: valid_seo_def required_string_def)
  have "\<not> (\<exists>x \<in> set (seo_docs d). seo_id x \<noteq> seo_id r \<and> slug x = s)"
    using only by blast
  then have nodup: "\<not> list_ex (\<lambda>x. seo_id x \<noteq> seo_id ?r' \<and> slug x = slug ?r') (seo_docs ?d2)"
    by (simp add: list_ex_iff sent_def logged_def)
  have stored: "list_ex (\<lambda>x. seo_id x = seo_id ?r') (seo_docs ?d2)"
    using rin by (auto simp: list_ex_iff sent_def logged_def)
  have save: "seo_save ?r' ?d2 = (Inr ?r', (sent OpSave ?d2)\<lparr>seo_docs := ?docs'\<rparr>)"
    using valid nodup stored av
    by (simp add: seo_save_def sent_def logged_def)
  have lf: "link_field_of ''service'' = Some LinkedService"
    by (simp add: link_field_of_def literal_get_def linkFieldMap_def)
  have body: "syncSeoData_try subCat s titleArg ''service'' (Some i) d
                = (Inr ?r', (sent OpSave ?d2)\<lparr>seo_docs := ?docs'\<rparr>)"
    using look indep ttl save lf
    by (simp add: syncSeoData_try_def Let_def)
  have sync: "syncSeoData subCat s titleArg ''service'' (Some i) d
                = (Inr ?r', (sent OpSave ?d2)\<lparr>seo_docs := ?docs'\<rparr>)"
    by (simp add: syncSeoData_def body catch_rethrow_def)
  have rin': "?r' \<in> set ?docs'"
  proof -
    have "(\<lambda>x. if seo_id x = seo_id r then ?r' else x) r
            \<in> (\<lambda>x. if seo_id x = seo_id r then ?r' else x) ` set (seo_docs d)"
      using rin by (rule imageI)
    then show ?thesis by simp
  qed
  have only': "x = ?r'" if "x \<in> set ?docs'" and "slug x = s" for x
  proof -
    from that(1) obtain x0 where x0: "x0 \<in> set (seo_docs d)"
      and x: "x = (if seo_id x0 = seo_id r then ?r' else x0)"
      by auto
    show ?thesis
    proof (cases "seo_id x0 = seo_id r")
      case True
      then show ?thesis using x by simp
    next
      case False
      then have "x0 = r" using x x0 that(2) only [of x0] by simp
      then show ?thesis using False by simp
    qed
  qed
  have f': "find (\<lambda>x. slug x = s) ?docs' = Some ?r'"
  proof (rule find_unique)
    show "?r' \<in> set ?docs'" by (rule rin')
    show "slug ?r' = s" by simp
    show "\<forall>x \<in> set ?docs'. slug x = s \<longrightarrow> x = ?r'"
      using only' by blast
  qed
  have safe: "safeDeleteSeoData s ((sent OpSave ?d2)\<lparr>seo_docs := ?docs'\<rparr>)
                = (Inr False,
                   logged (ConsoleLog ''Blocked deletion of auto-managed SEO'')
                     (sent OpFindOne ((sent OpSave ?d2)\<lparr>seo_docs := ?docs'\<rparr>)))"
    using av f'
    by (simp add: safeDeleteSeoData_def safeDeleteSeoData_try_def catch_rethrow_def
        seo_findOne_def sent_def logged_def)
  show ?thesis
    unfolding sync using rin' safe by (simp add: sent_def logged_def)
qed

theorem claim_independent_then_blocked_witness:
  "available (db_with [independent_doc 1 ''react-dev''])
   \<and> find (\<lambda>x. slug x = ''react-dev'') (seo_docs (db_with [independent_doc 1 ''react-dev'']))
       = Some (independent_doc 1 ''react-dev'')
   \<and> js_or (Some ''React Dev'') None = Some ''React Dev''
   \<and> distinct (map slug (seo_docs (db_with [independent_doc 1 ''react-dev''])))
   \<and> fst (syncSeoData (Some ''React Dev'') ''react-dev'' None ''service'' (Some 7)
            (db_with [independent_doc 1 ''react-dev'']))
       = Inr ((managed_doc 1 ''react-dev'' ''service'' (Some 7) None)
                \<lparr>title := Some ''React Dev'', seo_title := Some ''React Dev''\<rparr>)
   \<and> fst (safeDeleteSeoData ''react-dev''
            (snd (syncSeoData (Some ''React Dev'') ''react-dev'' None ''service'' (Some 7)
                    (db_with [independent_doc 1 ''react-dev'']))))
       = Inr False
   \<and> seo_docs (snd (safeDeleteSeoData ''react-dev''
            (snd (syncSeoData (Some ''React Dev'') ''react-dev'' None ''service'' (Some 7)
                    (db_with [independent_doc 1 ''react-dev''])))))
       = [(managed_doc 1 ''react-dev'' ''service'' (Some 7) None)
            \<lparr>title := Some ''React Dev'', seo_title := Some ''React Dev''\<rparr>]"
proof -
  have h1: "available (db_with [independent_doc 1 ''react-dev''])" by simp
  have h2: "find (\<lambda>x. slug x = ''react-dev'') (seo_docs (db_with [independent_doc 1 ''react-dev'']))
       = Some (independent_doc 1 ''react-dev'')" by simp
  have h3: "\<not> isAutoManaged (independent_doc 1 ''react-dev'')" by simp
  have h4: "linkedType (independent_doc 1 ''react-dev'') = ''independent''" by simp
  have h5: "\<forall>x \<in> set (seo_docs (db_with [independent_doc 1 ''react-dev''])).
              linkedService x \<noteq> Some 7" by simp
  have h6: "js_or (Some ''React Dev'') None = Some ''React Dev''" by (simp add: js_or_def)
  have h7: "''React Dev'' \<noteq> []" by simp
  have h8: "''react-dev'' \<noteq> []" by simp
  have h9: "distinct (map slug (seo_docs (db_with [independent_doc 1 ''react-dev''])))" by simp
  note inst = claim_independent_then_blocked [OF h1 h2 h3 h4 h5 h6 h7 h8 h9]
  show ?thesis
    using h1 h2 h6 h9 inst by simp
qed

text \<open>
  The claim as stated fails when another metadata record is already linked to the service:
  the lookup by id finds that record first, renaming it to the slug is refused by the
  unique index, the Independent record stays as it is, and the safe delete removes it.
\<close>

text \<open>
  The claim as stated fails when another metadata record is already linked to the service:
  the lookup by id finds that record first, renaming it to the slug is refused by the
  unique index, the Independent record stays as it is, and the safe delete removes it.
\<close>

theorem claim_independent_counterexample:
  "\<not> isAutoManaged (independent_doc 1 ''react-dev'')
   \<and> linkedType (independent_doc 1 ''react-dev'') = ''independent''
   \<and> fst (syncSeoData (Some ''React Dev'') ''react-dev'' None ''service'' (Some 7)
            (db_with [independent_doc 1 ''react-dev'',
                      managed_doc 2 ''react'' ''service'' (Some 7) None]))
       = Inl DuplicateKey
   \<and> seo_docs (snd (syncSeoData (Some ''React Dev'') ''react-dev'' None ''service'' (Some 7)
            (db_with [independent_doc 1 ''react-dev'',
                      managed_doc 2 ''react'' ''service'' (Some 7) None])))
       = [independent_doc 1 ''react-dev'', managed_doc 2 ''react'' ''service'' (Some 7) None]
   \<and> fst (safeDeleteSeoData ''react-dev''
            (snd (syncSeoData (Some ''React Dev'') ''react-dev'' None ''service'' (Some 7)
                    (db_with [independent_doc 1 ''react-dev'',
                              managed_doc 2 ''react'' ''service'' (Some 7) None]))))
       = Inr True
   \<and> seo_docs (snd (safeDeleteSeoData ''react-dev''
            (snd (syncSeoData (Some ''React Dev'') ''react-dev'' None ''service'' (Some 7)
                    (db_with [independent_doc 1 ''react-dev'',
                              managed_doc 2 ''react'' ''service'' (Some 7) None])))))
       = [managed_doc 2 ''react'' ''service'' (Some 7) None]"
  by (simp add: sync_eval)

section \<open>Synchronizer: link types\<close>










section \<open>Failures: absorbed by the image pipeline, thrown again by the synchronizer\<close>










end
